theory Spec2Isabelle
  imports Main "HOL-Library.Monad_Syntax"
begin

section \<open>Progress tracker: data model (src/scr/types.ts)\<close>

text \<open>
  The TypeScript type \<open>number\<close> is a double-precision floating-point number. The model has
  the integer-valued ones and the two infinities: \<open>Fin n\<close> is the number whose value is the
  integer \<open>n\<close>. These are the numbers the program itself makes (counters, targets,
  millisecond timestamps); a number with a fractional part, which only a hand-edited document
  can supply, is outside the model, and so is \<open>NaN\<close>, which no tracker field can hold (the
  code rejects it as a target and JSON has no notation for it). Negative zero is not
  told apart from zero. Arithmetic rounds as the runtime does, see \<open>roundInt\<close>.
  Strings are byte strings; a character outside ASCII is written as its UTF-8 bytes. The field
  \<open>id\<close> of a log entry is \<open>entry_id\<close> and that of a tracker is \<open>tracker_id\<close>.
\<close>

datatype number = NegInf | Fin int | PosInf

instantiation number :: linorder
begin

definition less_eq_number :: "number \<Rightarrow> number \<Rightarrow> bool" where
  "less_eq_number x y =
     (case x of
        NegInf \<Rightarrow> True
      | Fin a \<Rightarrow> (case y of NegInf \<Rightarrow> False | Fin b \<Rightarrow> a \<le> b | PosInf \<Rightarrow> True)
      | PosInf \<Rightarrow> (case y of PosInf \<Rightarrow> True | _ \<Rightarrow> False))"

definition less_number :: "number \<Rightarrow> number \<Rightarrow> bool" where
  "less_number x y = (x \<le> y \<and> \<not> y \<le> (x :: number))"

instance
  by standard (auto simp add: less_eq_number_def less_number_def split: number.splits)

end

datatype Action = Created | Increment | Decrement | Completed | Archived

record LogEntry =
  entry_id :: string
  timestamp :: number
  action :: Action
  detail :: string

record Tracker =
  tracker_id :: string
  label :: string
  target :: number
  current :: number
  createdAt :: number
  completedAt :: "number option"
  archivedAt :: "number option"
  logs :: "LogEntry list"

text \<open>
  A state slot of type \<open>T | null\<close>. The runtime can also hold \<open>undefined\<close> there (an
  imported document without the key), which every handler treats like \<open>null\<close> but which is
  written out differently on export.
\<close>

datatype 'a slot = Undefined | Null | Val 'a

datatype Tab = TrackerTab | HistoryTab

text \<open>
  The state of the \<open>App\<close> component (its hooks; \<open>formLabel\<close> is the hook \<open>label\<close>,
  renamed because \<open>Tracker\<close> has a field of that name), the error message of
  \<open>ImportModal\<close>, and the number of readings taken so far from the two collaborators the
  code calls: the clock (\<open>Date.now()\<close>) and the random source (\<open>Math.random()\<close>).
\<close>

record AppState =
  activeTracker :: "Tracker slot"
  history :: "Tracker list"
  tab :: Tab
  logModal :: "Tracker slot"
  showImport :: bool
  formLabel :: string
  targetStr :: string
  importError :: string
  nowCalls :: nat
  randomCalls :: nat

text \<open>
  The collaborators: \<open>clock e n\<close> is what the \<open>n\<close>-th call of \<open>Date.now()\<close> returns, a
  whole number of milliseconds; \<open>random e n\<close> is the text \<open>Math.random().toString(36)\<close> of
  the \<open>n\<close>-th call of \<open>Math.random()\<close>.
\<close>

record Env =
  clock :: "nat \<Rightarrow> int"
  random :: "nat \<Rightarrow> string"

section \<open>Runtime primitives used by the handlers\<close>

subsection \<open>Numbers\<close>

function bitLength :: "int \<Rightarrow> nat" where
  "bitLength n = (if n \<le> 0 then 0 else Suc (bitLength (n div 2)))"
  by pat_completeness auto
termination
  by (relation "measure nat") auto

declare bitLength.simps [simp del]

text \<open>
  The number nearest to an integer, ties to the even significand: an integer of magnitude up
  to \<open>2^53\<close> is a number; a larger one keeps its 53 leading bits, rounded, and from
  \<open>2^1024 - 2^970\<close> on the result is an infinity.
\<close>

definition roundInt :: "int \<Rightarrow> number" where
  "roundInt n =
     (let a = \<bar>n\<bar> in
      if a \<le> 2 ^ 53 then Fin n
      else
        (let q = 2 ^ (bitLength a - 53);
             k = a div q;
             r = a mod q;
             k' = (if 2 * r < q then k else if q < 2 * r then k + 1
                   else if even k then k else k + 1);
             y = k' * q
         in if 2 ^ 1024 \<le> y then (if n < 0 then NegInf else PosInf)
            else Fin (if n < 0 then - y else y)))"

text \<open>\<open>x + 1\<close> and \<open>x - 1\<close> on numbers.\<close>

definition plusOne :: "number \<Rightarrow> number" where
  "plusOne x = (case x of Fin n \<Rightarrow> roundInt (n + 1) | _ \<Rightarrow> x)"

definition minusOne :: "number \<Rightarrow> number" where
  "minusOne x = (case x of Fin n \<Rightarrow> roundInt (n - 1) | _ \<Rightarrow> x)"

subsection \<open>Numbers as text\<close>

definition digitChars :: string where
  "digitChars = ''0123456789abcdefghijklmnopqrstuvwxyz''"

text \<open>The digits of a whole number \<open>n \<ge> 0\<close> in radix \<open>r\<close>.\<close>

function natToString :: "nat \<Rightarrow> int \<Rightarrow> string" where
  "natToString r n =
     (if r < 2 \<or> n < int r then [digitChars ! nat n]
      else natToString r (n div int r) @ [digitChars ! nat (n mod int r)])"
  by pat_completeness auto
termination
proof (relation "measure (\<lambda>(r, n). nat n)")
  fix r :: nat and n :: int
  assume "\<not> (r < 2 \<or> n < int r)"
  then have "0 < n" "1 < int r" by auto
  then have "n div int r < n" by (rule int_div_less_self)
  with \<open>0 < n\<close> show "((r, n div int r), (r, n)) \<in> measure (\<lambda>(r, n). nat n)" by simp
qed simp

declare natToString.simps [simp del]

text \<open>
  The string conversion of a number in a template literal. The text has the fewest
  significant digits that still denote the number: for \<open>k = 1, 2, ...\<close> digits the two
  decimals of \<open>k\<close> significant digits around \<open>v\<close> are tried, one that rounds to \<open>v\<close> is
  taken, the nearer one if both do and the even one if they are equally near. Below \<open>10^21\<close>
  the text is these digits followed by zeros (for a whole number up to \<open>2^53\<close>, its decimal
  digits); from \<open>10^21\<close> on it is \<open>d.ddde+x\<close>.
\<close>

definition candidate :: "int \<Rightarrow> nat \<Rightarrow> nat \<Rightarrow> int option" where
  "candidate v n k =
     (let p = 10 ^ (n - k);
          lo = v div p;
          c0 = lo * p;
          c1 = (lo + 1) * p;
          ok0 = (roundInt c0 = Fin v);
          ok1 = (roundInt c1 = Fin v)
      in if ok0 \<and> ok1 then
           (if v - c0 < c1 - v then Some c0 else if c1 - v < v - c0 then Some c1
            else if even lo then Some c0 else Some c1)
         else if ok0 then Some c0 else if ok1 then Some c1 else None)"

definition shortestDecimal :: "int \<Rightarrow> int" where
  "shortestDecimal v =
     (let n = length (natToString 10 v) in
      case concat (map (\<lambda>k. case candidate v n k of None \<Rightarrow> [] | Some c \<Rightarrow> [c]) [1..<18]) of
        [] \<Rightarrow> v
      | c # _ \<Rightarrow> c)"

definition exponentForm :: "int \<Rightarrow> string" where
  "exponentForm c =
     (let ds = natToString 10 c;
          sig = rev (dropWhile (\<lambda>d. d = CHR ''0'') (rev ds))
      in take 1 ds @ (if 1 < length sig then CHR ''.'' # drop 1 sig else []) @
         ''e+'' @ natToString 10 (int (length ds) - 1))"

definition natText :: "int \<Rightarrow> string" where
  "natText v =
     (let c = shortestDecimal v in if v < 10 ^ 21 then natToString 10 c else exponentForm c)"

definition numberToString :: "number \<Rightarrow> string" where
  "numberToString x =
     (case x of
        NegInf \<Rightarrow> ''-Infinity''
      | PosInf \<Rightarrow> ''Infinity''
      | Fin n \<Rightarrow> if n < 0 then CHR ''-'' # natText (- n) else natText n)"

text \<open>
  \<open>Number.prototype.toString(radix)\<close> on a whole number: in radix 10 the string
  conversion above; in another radix, for a number in the range of \<open>Date.now()\<close>, its
  digits.
\<close>

definition toString :: "nat \<Rightarrow> int \<Rightarrow> string" where
  "toString r n =
     (if r = 10 then numberToString (Fin n)
      else if n < 0 then CHR ''-'' # natToString r (- n) else natToString r n)"

subsection \<open>Strings\<close>

definition slice :: "nat \<Rightarrow> nat \<Rightarrow> string \<Rightarrow> string" where
  "slice b e s = take (e - b) (drop b s)"

text \<open>
  The white space and line terminator characters of the language, in UTF-8: U+0009 to U+000D,
  U+0020, U+00A0, U+1680, U+2000 to U+200A, U+2028, U+2029, U+202F, U+205F, U+3000, U+FEFF.
\<close>

definition whiteSpaces :: "string list" where
  "whiteSpaces =
     [[CHR 0x09], [CHR 0x0A], [CHR 0x0B], [CHR 0x0C], [CHR 0x0D], [CHR 0x20],
      [CHR 0xC2, CHR 0xA0], [CHR 0xE1, CHR 0x9A, CHR 0x80],
      [CHR 0xE2, CHR 0x80, CHR 0x80], [CHR 0xE2, CHR 0x80, CHR 0x81],
      [CHR 0xE2, CHR 0x80, CHR 0x82], [CHR 0xE2, CHR 0x80, CHR 0x83],
      [CHR 0xE2, CHR 0x80, CHR 0x84], [CHR 0xE2, CHR 0x80, CHR 0x85],
      [CHR 0xE2, CHR 0x80, CHR 0x86], [CHR 0xE2, CHR 0x80, CHR 0x87],
      [CHR 0xE2, CHR 0x80, CHR 0x88], [CHR 0xE2, CHR 0x80, CHR 0x89],
      [CHR 0xE2, CHR 0x80, CHR 0x8A], [CHR 0xE2, CHR 0x80, CHR 0xA8],
      [CHR 0xE2, CHR 0x80, CHR 0xA9], [CHR 0xE2, CHR 0x80, CHR 0xAF],
      [CHR 0xE2, CHR 0x81, CHR 0x9F], [CHR 0xE3, CHR 0x80, CHR 0x80],
      [CHR 0xEF, CHR 0xBB, CHR 0xBF]]"

text \<open>Removing from the front of a string every character whose bytes are in a list.\<close>

function stripFront :: "string list \<Rightarrow> string \<Rightarrow> string" where
  "stripFront ws s =
     (case List.find (\<lambda>w. w \<noteq> [] \<and> take (length w) s = w) ws of
        None \<Rightarrow> s
      | Some w \<Rightarrow> stripFront ws (drop (length w) s))"
  by pat_completeness auto
termination
proof (relation "measure (\<lambda>(ws, s). length s)")
  show "wf (measure (\<lambda>(ws, s). length s))" by simp
next
  fix ws :: "string list" and s w :: string
  assume "List.find (\<lambda>w. w \<noteq> [] \<and> take (length w) s = w) ws = Some w"
  then have w: "w \<noteq> []" "take (length w) s = w"
    by (auto simp add: find_Some_iff)
  then have "s \<noteq> []" by auto
  with w(1) show "((ws, drop (length w) s), (ws, s)) \<in> measure (\<lambda>(ws, s). length s)"
    by simp
qed

declare stripFront.simps [simp del]

text \<open>\<open>String.prototype.trim\<close>: white space is removed from both ends.\<close>

definition trimStart :: "string \<Rightarrow> string" where
  "trimStart s = stripFront whiteSpaces s"

definition trimEnd :: "string \<Rightarrow> string" where
  "trimEnd s = rev (stripFront (map rev whiteSpaces) (rev s))"

definition trim :: "string \<Rightarrow> string" where
  "trim s = trimEnd (trimStart s)"

definition digitVal :: "char \<Rightarrow> nat option" where
  "digitVal c =
     (let n = (of_char c :: nat) in
      if 48 \<le> n \<and> n \<le> 57 then Some (n - 48)
      else if 97 \<le> n \<and> n \<le> 122 then Some (n - 87)
      else if 65 \<le> n \<and> n \<le> 90 then Some (n - 55)
      else None)"

definition isDigit :: "nat \<Rightarrow> char \<Rightarrow> bool" where
  "isDigit r c = (case digitVal c of None \<Rightarrow> False | Some d \<Rightarrow> d < r)"

definition digitsValue :: "nat \<Rightarrow> string \<Rightarrow> int" where
  "digitsValue r ds =
     foldl (\<lambda>a c. a * int r + (case digitVal c of None \<Rightarrow> 0 | Some d \<Rightarrow> int d)) 0 ds"

text \<open>
  \<open>parseInt(s)\<close> with no radix: leading white space is skipped, a sign is read, a
  \<open>0x\<close> or \<open>0X\<close> prefix selects radix 16, and the longest run of digits is converted to the
  number nearest to the integer it denotes; what follows the digits is ignored. \<open>None\<close> is
  \<open>NaN\<close>.
\<close>

definition parseInt :: "string \<Rightarrow> number option" where
  "parseInt s =
     (let s1 = trimStart s;
          neg = (take 1 s1 = ''-'');
          s2 = (if take 1 s1 = ''-'' \<or> take 1 s1 = ''+'' then drop 1 s1 else s1);
          hex = (take 2 s2 = ''0x'' \<or> take 2 s2 = ''0X'');
          r = (if hex then 16 else 10);
          s3 = (if hex then drop 2 s2 else s2);
          ds = takeWhile (isDigit r) s3
      in if ds = [] then None
         else Some (roundInt ((if neg then - 1 else 1) * digitsValue r ds)))"

subsection \<open>Clock and random source\<close>

definition Date_now :: "Env \<Rightarrow> AppState \<Rightarrow> int \<times> AppState" where
  "Date_now e s = (clock e (nowCalls s), s\<lparr>nowCalls := nowCalls s + 1\<rparr>)"

definition Math_random :: "Env \<Rightarrow> AppState \<Rightarrow> string \<times> AppState" where
  "Math_random e s = (random e (randomCalls s), s\<lparr>randomCalls := randomCalls s + 1\<rparr>)"

section \<open>The handlers of src/scr/App.tsx\<close>

text \<open>\<open>uid = () => Math.random().toString(36).slice(2, 10) + Date.now().toString(36)\<close>\<close>

definition uid :: "Env \<Rightarrow> AppState \<Rightarrow> string \<times> AppState" where
  "uid e s =
     (let (r, s1) = Math_random e s;
          (now, s2) = Date_now e s1
      in (slice 2 10 r @ toString 36 now, s2))"

text \<open>\<open>addLog\<close>: a copy of the tracker with one entry appended to its log.\<close>

definition addLog :: "Env \<Rightarrow> Tracker \<Rightarrow> Action \<Rightarrow> string \<Rightarrow> AppState \<Rightarrow> Tracker \<times> AppState" where
  "addLog e tracker act det s =
     (let (i, s1) = uid e s;
          (now, s2) = Date_now e s1
      in (tracker\<lparr>logs := logs tracker @
            [\<lparr>entry_id = i, timestamp = Fin now, action = act, detail = det\<rparr>]\<rparr>, s2))"

definition handleCreate :: "Env \<Rightarrow> AppState \<Rightarrow> AppState" where
  "handleCreate e s =
     (case parseInt (targetStr s) of
        None \<Rightarrow> s
      | Some tgt \<Rightarrow>
          if tgt = Fin 0 \<or> tgt < Fin 1 then s
          else
            (let (i, s1) = uid e s;
                 lbl = (if trim (formLabel s) = [] then ''Tracker'' else trim (formLabel s));
                 (now, s2) = Date_now e s1;
                 t = \<lparr>tracker_id = i, label = lbl, target = tgt, current = Fin 0,
                      createdAt = Fin now, completedAt = None, archivedAt = None, logs = []\<rparr>;
                 (t1, s3) = addLog e t Created
                   (''Created \"'' @ label t @ ''\" with target '' @ numberToString tgt) s2
             in s3\<lparr>activeTracker := Val t1, formLabel := [], targetStr := []\<rparr>))"

definition handleIncrement :: "Env \<Rightarrow> AppState \<Rightarrow> AppState" where
  "handleIncrement e s =
     (case activeTracker s of
        Val a \<Rightarrow>
          if current a \<ge> target a then s
          else
            (let t = a\<lparr>current := plusOne (current a)\<rparr>;
                 (t1, s1) = addLog e t Increment
                   (''Progress: '' @ numberToString (current t) @ ''/'' @
                    numberToString (target t)) s;
                 (t2, s2) =
                   (if current t1 \<ge> target t1 then
                      (let (now, s') = Date_now e s1
                       in addLog e (t1\<lparr>completedAt := Some (Fin now)\<rparr>) Completed
                            (''Completed! '' @ [CHR 0xF0, CHR 0x9F, CHR 0x8E, CHR 0x89]) s')
                    else (t1, s1))
             in s2\<lparr>activeTracker := Val t2\<rparr>)
      | _ \<Rightarrow> s)"

definition handleDecrement :: "Env \<Rightarrow> AppState \<Rightarrow> AppState" where
  "handleDecrement e s =
     (case activeTracker s of
        Val a \<Rightarrow>
          if current a \<le> Fin 0 then s
          else
            (let wasComplete = (current a \<ge> target a);
                 t = a\<lparr>current := minusOne (current a),
                       completedAt := (if wasComplete then None else completedAt a)\<rparr>;
                 (t1, s1) = addLog e t Decrement
                   (''Progress: '' @ numberToString (current t) @ ''/'' @
                    numberToString (target t)) s
             in s1\<lparr>activeTracker := Val t1\<rparr>)
      | _ \<Rightarrow> s)"

definition handleArchive :: "Env \<Rightarrow> AppState \<Rightarrow> AppState" where
  "handleArchive e s =
     (case activeTracker s of
        Val a \<Rightarrow>
          (let (now, s1) = Date_now e s;
               t = a\<lparr>archivedAt := Some (Fin now)\<rparr>;
               (t1, s2) = addLog e t Archived ''Tracker archived'' s1
           in s2\<lparr>history := t1 # history s2, activeTracker := Null\<rparr>)
      | _ \<Rightarrow> s)"

definition handleDeleteHistory :: "string \<Rightarrow> AppState \<Rightarrow> AppState" where
  "handleDeleteHistory i s = s\<lparr>history := filter (\<lambda>t. tracker_id t \<noteq> i) (history s)\<rparr>"

section \<open>Export and import (handleExport, ImportModal.processFile, handleImport)\<close>

text \<open>
  The content of a file is represented by the value that \<open>JSON.parse\<close> yields for it, a tree
  of type \<open>json\<close> (an object is the list of its key-value pairs, each key once), and by
  \<open>None\<close> when \<open>JSON.parse\<close> throws. \<open>JSON.stringify\<close> and \<open>JSON.parse\<close> themselves
  belong to the runtime and are not modelled beyond this: the exported file is the tree that
  reading it back yields. A number of a tree is a number of the data model; it is an
  infinity for a numeral beyond the range (\<open>1e999\<close>), whereas \<open>JSON.stringify\<close> writes
  \<open>null\<close> for an infinity.
\<close>

datatype json =
  JNull | JBool bool | JNum number | JStr string | JArr "json list" | JObj "(string \<times> json) list"

text \<open>
  \<open>AppData\<close> of types.ts. Only the truth value of \<open>version\<close> is ever inspected, so the field
  keeps the parsed value; the two other fields may be missing from a document.
\<close>

record AppData =
  version :: json
  data_activeTracker :: "Tracker slot"
  data_history :: "Tracker list slot"

text \<open>The truth value of a parsed value, and of a property that may be absent (\<open>!x\<close> is
  \<open>falsy x\<close>; \<open>None\<close> is \<open>undefined\<close>).\<close>

fun truthy :: "json \<Rightarrow> bool" where
  "truthy JNull = False"
| "truthy (JBool b) = b"
| "truthy (JNum x) = (x \<noteq> Fin 0)"
| "truthy (JStr s) = (s \<noteq> [])"
| "truthy (JArr xs) = True"
| "truthy (JObj kvs) = True"

definition falsy :: "json option \<Rightarrow> bool" where
  "falsy v = (case v of None \<Rightarrow> True | Some j \<Rightarrow> \<not> truthy j)"

text \<open>
  Reading a property of a value other than \<open>null\<close>. None of the three names the code reads
  (\<open>version\<close>, \<open>activeTracker\<close>, \<open>history\<close>) is a built-in property of a number, string,
  boolean or array, so the result there is \<open>undefined\<close>. Reading a property of \<open>null\<close>
  throws and is a case of its own in \<open>processFile\<close>.
\<close>

definition getProp :: "json \<Rightarrow> string \<Rightarrow> json option" where
  "getProp j k = (case j of JObj kvs \<Rightarrow> map_of kvs k | _ \<Rightarrow> None)"

text \<open>The tree that \<open>JSON.stringify\<close> writes for a log entry, a tracker and the exported
  document; a key whose value is \<open>undefined\<close> is left out.\<close>

fun actionName :: "Action \<Rightarrow> string" where
  "actionName Created = ''created''"
| "actionName Increment = ''increment''"
| "actionName Decrement = ''decrement''"
| "actionName Completed = ''completed''"
| "actionName Archived = ''archived''"

definition numberToJson :: "number \<Rightarrow> json" where
  "numberToJson x = (case x of Fin n \<Rightarrow> JNum (Fin n) | _ \<Rightarrow> JNull)"

definition numberOrNull :: "number option \<Rightarrow> json" where
  "numberOrNull v = (case v of None \<Rightarrow> JNull | Some x \<Rightarrow> numberToJson x)"

definition logEntryToJson :: "LogEntry \<Rightarrow> json" where
  "logEntryToJson l =
     JObj [(''id'', JStr (entry_id l)), (''timestamp'', numberToJson (timestamp l)),
           (''action'', JStr (actionName (action l))), (''detail'', JStr (detail l))]"

definition trackerToJson :: "Tracker \<Rightarrow> json" where
  "trackerToJson t =
     JObj [(''id'', JStr (tracker_id t)), (''label'', JStr (label t)),
           (''target'', numberToJson (target t)), (''current'', numberToJson (current t)),
           (''createdAt'', numberToJson (createdAt t)),
           (''completedAt'', numberOrNull (completedAt t)),
           (''archivedAt'', numberOrNull (archivedAt t)),
           (''logs'', JArr (map logEntryToJson (logs t)))]"

text \<open>\<open>handleExport\<close>: the document \<open>{ version: 1, activeTracker, history }\<close> handed to
  the download.\<close>

definition handleExport :: "AppState \<Rightarrow> json" where
  "handleExport s =
     JObj ([(''version'', JNum (Fin 1))] @
           (case activeTracker s of
              Undefined \<Rightarrow> []
            | Null \<Rightarrow> [(''activeTracker'', JNull)]
            | Val t \<Rightarrow> [(''activeTracker'', trackerToJson t)]) @
           [(''history'', JArr (map trackerToJson (history s)))])"

text \<open>
  The cast \<open>JSON.parse(...) as AppData\<close> checks nothing at run time. The state of the model is
  typed, so the cast is modelled by reading the tree as a value of the declared type:
  \<open>asTracker\<close> and \<open>asAppData\<close> succeed exactly on the trees that are values of the types
  \<open>Tracker\<close> and \<open>AppData\<close> (every declared field present with a value of its type, no other
  field), and change nothing. The keys of the document itself other than the three that are read
  are ignored, as in the code.
\<close>

definition asString :: "json option \<Rightarrow> string option" where
  "asString v = (case v of Some (JStr s) \<Rightarrow> Some s | _ \<Rightarrow> None)"

definition asNumber :: "json option \<Rightarrow> number option" where
  "asNumber v = (case v of Some (JNum x) \<Rightarrow> Some x | _ \<Rightarrow> None)"

definition asNumberOrNull :: "json option \<Rightarrow> number option option" where
  "asNumberOrNull v =
     (case v of Some (JNum x) \<Rightarrow> Some (Some x) | Some JNull \<Rightarrow> Some None | _ \<Rightarrow> None)"

definition asAction :: "json option \<Rightarrow> Action option" where
  "asAction v =
     (case v of
        Some (JStr s) \<Rightarrow>
          (if s = ''created'' then Some Created
           else if s = ''increment'' then Some Increment
           else if s = ''decrement'' then Some Decrement
           else if s = ''completed'' then Some Completed
           else if s = ''archived'' then Some Archived
           else None)
      | _ \<Rightarrow> None)"

definition asLogEntry :: "json \<Rightarrow> LogEntry option" where
  "asLogEntry j =
     (case j of
        JObj kvs \<Rightarrow>
          if length kvs = 4 then
            do {
              i \<leftarrow> asString (map_of kvs ''id'');
              ts \<leftarrow> asNumber (map_of kvs ''timestamp'');
              a \<leftarrow> asAction (map_of kvs ''action'');
              d \<leftarrow> asString (map_of kvs ''detail'');
              Some \<lparr>entry_id = i, timestamp = ts, action = a, detail = d\<rparr>
            }
          else None
      | _ \<Rightarrow> None)"

definition asLogs :: "json option \<Rightarrow> LogEntry list option" where
  "asLogs v = (case v of Some (JArr js) \<Rightarrow> those (map asLogEntry js) | _ \<Rightarrow> None)"

definition asTracker :: "json \<Rightarrow> Tracker option" where
  "asTracker j =
     (case j of
        JObj kvs \<Rightarrow>
          if length kvs = 8 then
            do {
              i \<leftarrow> asString (map_of kvs ''id'');
              l \<leftarrow> asString (map_of kvs ''label'');
              tg \<leftarrow> asNumber (map_of kvs ''target'');
              c \<leftarrow> asNumber (map_of kvs ''current'');
              cr \<leftarrow> asNumber (map_of kvs ''createdAt'');
              co \<leftarrow> asNumberOrNull (map_of kvs ''completedAt'');
              ar \<leftarrow> asNumberOrNull (map_of kvs ''archivedAt'');
              ls \<leftarrow> asLogs (map_of kvs ''logs'');
              Some \<lparr>tracker_id = i, label = l, target = tg, current = c, createdAt = cr,
                    completedAt = co, archivedAt = ar, logs = ls\<rparr>
            }
          else None
      | _ \<Rightarrow> None)"

definition asTrackerSlot :: "json option \<Rightarrow> Tracker slot option" where
  "asTrackerSlot v =
     (case v of
        None \<Rightarrow> Some Undefined
      | Some JNull \<Rightarrow> Some Null
      | Some j \<Rightarrow> map_option Val (asTracker j))"

definition asHistorySlot :: "json option \<Rightarrow> Tracker list slot option" where
  "asHistorySlot v =
     (case v of
        None \<Rightarrow> Some Undefined
      | Some JNull \<Rightarrow> Some Null
      | Some (JArr js) \<Rightarrow> map_option Val (those (map asTracker js))
      | _ \<Rightarrow> None)"

definition asAppData :: "json \<Rightarrow> AppData option" where
  "asAppData j =
     (case j of
        JObj kvs \<Rightarrow>
          do {
            v \<leftarrow> map_of kvs ''version'';
            a \<leftarrow> asTrackerSlot (map_of kvs ''activeTracker'');
            h \<leftarrow> asHistorySlot (map_of kvs ''history'');
            Some \<lparr>version = v, data_activeTracker = a, data_history = h\<rparr>
          }
      | _ \<Rightarrow> None)"

text \<open>\<open>handleImport\<close>: both slots are replaced, a missing history becomes the empty list
  (\<open>data.history ?? []\<close>, which is \<open>orEmpty\<close> on a parsed value).\<close>

definition orEmpty :: "json option \<Rightarrow> json" where
  "orEmpty v = (case v of None \<Rightarrow> JArr [] | Some j \<Rightarrow> if j = JNull then JArr [] else j)"

definition handleImport :: "AppData \<Rightarrow> AppState \<Rightarrow> AppState" where
  "handleImport d s =
     s\<lparr>activeTracker := data_activeTracker d,
       history := (case data_history d of Val h \<Rightarrow> h | _ \<Rightarrow> []),
       showImport := False, tab := TrackerTab\<rparr>"

text \<open>
  What \<open>processFile\<close> does once the file has been read. \<open>Failed\<close>: the \<open>catch\<close> branch
  ran, \<open>onImport\<close> was not called. \<open>Imported\<close>: \<open>onImport\<close> was called with the document,
  a value of type \<open>AppData\<close>. \<open>Untyped a h\<close>: the document passed the check but is no value
  of type \<open>AppData\<close>; \<open>onImport\<close> was called all the same, and \<open>a\<close> and \<open>h\<close> are the
  values \<open>handleImport\<close> hands to \<open>setActiveTracker\<close> and \<open>setHistory\<close>
  (\<open>data.activeTracker\<close> and \<open>data.history ?? []\<close>). At least one of them is no value of
  the slot's type, so the typed state of this model does not follow the program further.
\<close>

datatype ImportResult = Failed AppState | Imported AppState | Untyped "json option" json

definition invalidFile :: string where
  "invalidFile = ''Invalid file. Please select a valid Progress Tracker export (.json).''"

definition processFile :: "json option \<Rightarrow> AppState \<Rightarrow> ImportResult" where
  "processFile raw s =
     (let s1 = s\<lparr>importError := []\<rparr> in
      case raw of
        None \<Rightarrow> Failed (s1\<lparr>importError := invalidFile\<rparr>)
      | Some JNull \<Rightarrow> Failed (s1\<lparr>importError := invalidFile\<rparr>)
      | Some parsed \<Rightarrow>
          if falsy (getProp parsed ''version'') \<or>
             (falsy (getProp parsed ''activeTracker'') \<and> falsy (getProp parsed ''history''))
          then Failed (s1\<lparr>importError := invalidFile\<rparr>)
          else (case asAppData parsed of
                  None \<Rightarrow>
                    Untyped (getProp parsed ''activeTracker'') (orEmpty (getProp parsed ''history''))
                | Some d \<Rightarrow> Imported (handleImport d s1)))"


section \<open>Notions used to state the properties\<close>

text \<open>The entry \<open>addLog\<close> appends when the clock has been read \<open>n\<close> times and the random
  source \<open>r\<close> times.\<close>

definition newEntry :: "Env \<Rightarrow> nat \<Rightarrow> nat \<Rightarrow> Action \<Rightarrow> string \<Rightarrow> LogEntry" where
  "newEntry e n r act det =
     \<lparr>entry_id = slice 2 10 (random e r) @ toString 36 (clock e n),
      timestamp = Fin (clock e (n + 1)), action = act, detail = det\<rparr>"

definition progress :: "number \<Rightarrow> number \<Rightarrow> string" where
  "progress c t = ''Progress: '' @ numberToString c @ ''/'' @ numberToString t"

definition completedDetail :: string where
  "completedDetail = ''Completed! '' @ [CHR 0xF0, CHR 0x9F, CHR 0x8E, CHR 0x89]"

text \<open>\<open>label.trim() || 'Tracker'\<close>\<close>

definition resolvedLabel :: "string \<Rightarrow> string" where
  "resolvedLabel l = (if trim l = [] then ''Tracker'' else trim l)"

definition createdDetail :: "string \<Rightarrow> number \<Rightarrow> string" where
  "createdDetail l n = ''Created \"'' @ l @ ''\" with target '' @ numberToString n"

text \<open>The user's operations on the tracker engine and the history store; \<open>Create l t\<close> fills
  in the form and submits it.\<close>

datatype Op = Create string string | Inc | Dec | Arch | Delete string

fun step :: "Env \<Rightarrow> AppState \<Rightarrow> Op \<Rightarrow> AppState" where
  "step e s (Create l t) = handleCreate e (s\<lparr>formLabel := l, targetStr := t\<rparr>)"
| "step e s Inc = handleIncrement e s"
| "step e s Dec = handleDecrement e s"
| "step e s Arch = handleArchive e s"
| "step e s (Delete i) = handleDeleteHistory i s"

definition run :: "Env \<Rightarrow> AppState \<Rightarrow> Op list \<Rightarrow> AppState" where
  "run e s ops = foldl (step e) s ops"

text \<open>All trackers of a state: the active one, if any, and the archived ones.\<close>

definition trackers :: "AppState \<Rightarrow> Tracker list" where
  "trackers s = (case activeTracker s of Val t \<Rightarrow> [t] | _ \<Rightarrow> []) @ history s"

definition inRange :: "Tracker \<Rightarrow> bool" where
  "inRange t = (Fin 0 \<le> current t \<and> current t \<le> target t \<and> Fin 1 \<le> target t)"

text \<open>
  A counter in the range where adding one is exact, or at the end of it: at \<open>2^53\<close> adding
  one leaves the counter where it is, so a counter that starts at \<open>0\<close> never gets beyond.
\<close>

definition safeCounter :: "Tracker \<Rightarrow> bool" where
  "safeCounter t = (current t \<le> Fin (2 ^ 53))"

definition completionOK :: "Tracker \<Rightarrow> bool" where
  "completionOK t = (completedAt t \<noteq> None \<longleftrightarrow> current t = target t)"

text \<open>The state of the application when nothing is stored: the fall-back values of
  \<open>usePersistedState\<close> and the initial values of the other hooks.\<close>

definition initialState :: AppState where
  "initialState =
     \<lparr>activeTracker = Null, history = [], tab = TrackerTab, logModal = Null, showImport = False,
      formLabel = [], targetStr = [], importError = [], nowCalls = 0, randomCalls = 0\<rparr>"

text \<open>A clock that advances by one millisecond per reading and a constant random source, for
  the concrete instances below.\<close>

definition exampleEnv :: Env where
  "exampleEnv = \<lparr>clock = (\<lambda>n. 1000 + int n), random = (\<lambda>n. ''0.k3x9q2m7w1'')\<rparr>"

definition exampleTracker :: "int \<Rightarrow> int \<Rightarrow> Tracker" where
  "exampleTracker c t =
     \<lparr>tracker_id = ''a1'', label = ''Laps'', target = Fin t, current = Fin c,
      createdAt = Fin 10, completedAt = None, archivedAt = None, logs = []\<rparr>"

text \<open>
  The failure condition of the import in the words of the specification: the content does not
  parse, or the version is falsy, or both \<open>activeTracker\<close> and \<open>history\<close> are absent or null.
\<close>

definition absentOrNull :: "json option \<Rightarrow> bool" where
  "absentOrNull v = (v = None \<or> v = Some JNull)"

definition specImportFails :: "json option \<Rightarrow> bool" where
  "specImportFails raw =
     (case raw of
        None \<Rightarrow> True
      | Some p \<Rightarrow>
          falsy (getProp p ''version'') \<or>
          (absentOrNull (getProp p ''activeTracker'') \<and> absentOrNull (getProp p ''history'')))"

text \<open>
  ``The state holds the document's \<open>activeTracker\<close> and \<open>history\<close> exactly as given'', in
  the words of the specification: what the two slots would be written out as is what the
  document has under the two keys.
\<close>

definition slotToJson :: "Tracker slot \<Rightarrow> json option" where
  "slotToJson a =
     (case a of Undefined \<Rightarrow> None | Null \<Rightarrow> Some JNull | Val t \<Rightarrow> Some (trackerToJson t))"

definition storedAsGiven :: "json \<Rightarrow> AppState \<Rightarrow> bool" where
  "storedAsGiven doc s =
     (slotToJson (activeTracker s) = getProp doc ''activeTracker'' \<and>
      Some (JArr (map trackerToJson (history s))) = getProp doc ''history'')"

text \<open>
  A tracker all of whose numbers are finite: these are the trackers that \<open>JSON.stringify\<close>
  writes without loss.
\<close>

definition isFinite :: "number \<Rightarrow> bool" where
  "isFinite x = (case x of Fin n \<Rightarrow> True | _ \<Rightarrow> False)"

definition finiteOrNull :: "number option \<Rightarrow> bool" where
  "finiteOrNull v = (case v of None \<Rightarrow> True | Some x \<Rightarrow> isFinite x)"

definition finiteTracker :: "Tracker \<Rightarrow> bool" where
  "finiteTracker t =
     (isFinite (target t) \<and> isFinite (current t) \<and> isFinite (createdAt t) \<and>
      finiteOrNull (completedAt t) \<and> finiteOrNull (archivedAt t) \<and>
      list_all (\<lambda>l. isFinite (timestamp l)) (logs t))"


section \<open>Numbers: order and rounding\<close>

lemma number_order [simp]:
  "Fin a \<le> Fin b \<longleftrightarrow> a \<le> b" "Fin a < Fin b \<longleftrightarrow> a < b"
  "NegInf \<le> x" "x \<le> PosInf" "\<not> x < NegInf" "\<not> PosInf < x"
  "Fin a < PosInf" "NegInf < Fin a" "NegInf < PosInf"
  "\<not> Fin a \<le> NegInf" "\<not> PosInf \<le> Fin a" "\<not> PosInf \<le> NegInf"
  by (auto simp add: less_eq_number_def less_number_def split: number.splits)

lemma roundInt_exact: "\<bar>n\<bar> \<le> 2 ^ 53 \<Longrightarrow> roundInt n = Fin n"
  by (simp add: roundInt_def)

lemma roundInt_stall: "roundInt 9007199254740993 = Fin 9007199254740992"
  by code_simp

lemma plusOne_exact: "- (2 ^ 53) \<le> c \<Longrightarrow> c < 2 ^ 53 \<Longrightarrow> plusOne (Fin c) = Fin (c + 1)"
  by (simp add: plusOne_def roundInt_exact)

lemma minusOne_exact: "- (2 ^ 53) < c \<Longrightarrow> c \<le> 2 ^ 53 \<Longrightarrow> minusOne (Fin c) = Fin (c - 1)"
  by (simp add: minusOne_def roundInt_exact)

lemma one_le_number: "Fin 1 \<le> x \<Longrightarrow> Fin 0 \<le> x \<and> x \<noteq> Fin 0 \<and> Fin 0 \<noteq> x"
  by (cases x) auto

lemma plusOne_safe:
  assumes "Fin 0 \<le> x" "x \<le> Fin (2 ^ 53)" "x < y"
  shows "Fin 0 \<le> plusOne x" "plusOne x \<le> Fin (2 ^ 53)" "plusOne x \<le> y"
proof -
  from assms(1,2) obtain c where c: "x = Fin c" "0 \<le> c" "c \<le> 2 ^ 53"
    by (cases x) auto
  have "Fin 0 \<le> plusOne x \<and> plusOne x \<le> Fin (2 ^ 53) \<and> plusOne x \<le> y"
  proof (cases "c < 2 ^ 53")
    case True
    then have p: "plusOne x = Fin (c + 1)" using c by (simp add: plusOne_exact)
    show ?thesis using assms(3) c True unfolding p by (cases y) auto
  next
    case False
    then have "c = 2 ^ 53" using c by simp
    then have p: "plusOne x = x" using c by (simp add: plusOne_def roundInt_stall)
    show ?thesis using assms unfolding p by simp
  qed
  then show "Fin 0 \<le> plusOne x" "plusOne x \<le> Fin (2 ^ 53)" "plusOne x \<le> y" by simp_all
qed

lemma minusOne_safe:
  assumes "\<not> x \<le> Fin 0" "x \<le> Fin (2 ^ 53)"
  shows "Fin 0 \<le> minusOne x" "minusOne x < x"
proof -
  from assms obtain c where c: "x = Fin c" "0 < c" "c \<le> 2 ^ 53"
    by (cases x) auto
  then have p: "minusOne x = Fin (c - 1)" by (simp add: minusOne_exact)
  show "Fin 0 \<le> minusOne x" "minusOne x < x" using c unfolding p by simp_all
qed

section \<open>The handlers in closed form\<close>

lemma addLog_eq:
  "addLog e t act d s =
     (t\<lparr>logs := logs t @ [newEntry e (nowCalls s) (randomCalls s) act d]\<rparr>,
      s\<lparr>nowCalls := nowCalls s + 2, randomCalls := randomCalls s + 1\<rparr>)"
  by (simp add: addLog_def uid_def Date_now_def Math_random_def newEntry_def)

lemma handleIncrement_below:
  assumes "activeTracker s = Val a" "current a < target a" "plusOne (current a) < target a"
  shows "handleIncrement e s =
     s\<lparr>activeTracker := Val (a\<lparr>current := plusOne (current a),
          logs := logs a @ [newEntry e (nowCalls s) (randomCalls s) Increment
                              (progress (plusOne (current a)) (target a))]\<rparr>),
       nowCalls := nowCalls s + 2, randomCalls := randomCalls s + 1\<rparr>"
proof -
  from assms have "\<not> target a \<le> current a" "\<not> target a \<le> plusOne (current a)"
    by simp_all
  with assms(1) show ?thesis
    by (simp add: handleIncrement_def addLog_eq progress_def Let_def)
qed

lemma handleIncrement_reach:
  assumes "activeTracker s = Val a" "current a < target a" "target a \<le> plusOne (current a)"
  shows "handleIncrement e s =
     s\<lparr>activeTracker := Val (a\<lparr>current := plusOne (current a),
          completedAt := Some (Fin (clock e (nowCalls s + 2))),
          logs := logs a @ [newEntry e (nowCalls s) (randomCalls s) Increment
                              (progress (plusOne (current a)) (target a)),
                            newEntry e (nowCalls s + 3) (randomCalls s + 1) Completed
                              completedDetail]\<rparr>),
       nowCalls := nowCalls s + 5, randomCalls := randomCalls s + 2\<rparr>"
proof -
  from assms have "\<not> target a \<le> current a" by simp
  with assms(1,3) show ?thesis
    by (simp add: handleIncrement_def addLog_eq progress_def completedDetail_def Date_now_def
        Let_def eval_nat_numeral)
qed

lemma handleIncrement_noop:
  assumes "activeTracker s = Val a" "target a \<le> current a"
  shows "handleIncrement e s = s"
  using assms by (simp add: handleIncrement_def)

lemma handleIncrement_none:
  assumes "\<forall>a. activeTracker s \<noteq> Val a"
  shows "handleIncrement e s = s"
  using assms by (simp add: handleIncrement_def split: slot.splits)

lemma handleDecrement_pos:
  assumes "activeTracker s = Val a" "Fin 0 < current a"
  shows "handleDecrement e s =
     s\<lparr>activeTracker := Val (a\<lparr>current := minusOne (current a),
          completedAt := (if target a \<le> current a then None else completedAt a),
          logs := logs a @ [newEntry e (nowCalls s) (randomCalls s) Decrement
                              (progress (minusOne (current a)) (target a))]\<rparr>),
       nowCalls := nowCalls s + 2, randomCalls := randomCalls s + 1\<rparr>"
proof -
  from assms have "\<not> current a \<le> Fin 0" by simp
  with assms(1) show ?thesis
    by (simp add: handleDecrement_def addLog_eq progress_def Let_def)
qed

lemma handleDecrement_noop:
  assumes "activeTracker s = Val a" "current a \<le> Fin 0"
  shows "handleDecrement e s = s"
  using assms by (simp add: handleDecrement_def)

lemma handleDecrement_none:
  assumes "\<forall>a. activeTracker s \<noteq> Val a"
  shows "handleDecrement e s = s"
  using assms by (simp add: handleDecrement_def split: slot.splits)

lemma handleArchive_eq:
  assumes "activeTracker s = Val a"
  shows "handleArchive e s =
     s\<lparr>activeTracker := Null,
       history := a\<lparr>archivedAt := Some (Fin (clock e (nowCalls s))),
                    logs := logs a @ [newEntry e (nowCalls s + 1) (randomCalls s) Archived
                                        ''Tracker archived'']\<rparr> # history s,
       nowCalls := nowCalls s + 3, randomCalls := randomCalls s + 1\<rparr>"
  using assms by (simp add: handleArchive_def addLog_eq Date_now_def eval_nat_numeral)

lemma handleArchive_none:
  assumes "\<forall>a. activeTracker s \<noteq> Val a"
  shows "handleArchive e s = s"
  using assms by (simp add: handleArchive_def split: slot.splits)

lemma handleCreate_ok:
  assumes "parseInt (targetStr s) = Some v" "Fin 1 \<le> v"
  shows "handleCreate e s =
     s\<lparr>activeTracker := Val
          \<lparr>tracker_id = slice 2 10 (random e (randomCalls s)) @ toString 36 (clock e (nowCalls s)),
           label = resolvedLabel (formLabel s), target = v, current = Fin 0,
           createdAt = Fin (clock e (nowCalls s + 1)), completedAt = None, archivedAt = None,
           logs = [newEntry e (nowCalls s + 2) (randomCalls s + 1) Created
                     (createdDetail (resolvedLabel (formLabel s)) v)]\<rparr>,
       formLabel := [], targetStr := [],
       nowCalls := nowCalls s + 4, randomCalls := randomCalls s + 2\<rparr>"
proof -
  from assms(2) have "v \<noteq> Fin 0" "\<not> v < Fin 1" by auto
  with assms(1) show ?thesis
    by (simp add: handleCreate_def addLog_eq uid_def Date_now_def Math_random_def
        resolvedLabel_def createdDetail_def Let_def eval_nat_numeral)
qed

lemma handleCreate_reject:
  assumes "\<forall>v. parseInt (targetStr s) = Some v \<longrightarrow> v < Fin 1"
  shows "handleCreate e s = s"
  using assms by (auto simp add: handleCreate_def split: option.splits)

lemma parseInt_20: "parseInt ''20'' = Some (Fin 20)"
  by code_simp

lemma create_then_increments:
  assumes "parseInt (targetStr s) = Some (Fin n)" "1 \<le> n" "n \<le> 2 ^ 53"
  shows "k \<le> nat n \<Longrightarrow>
    \<exists>t. activeTracker ((handleIncrement e ^^ k) (handleCreate e s)) = Val t \<and>
        current t = Fin (int k) \<and> target t = Fin n \<and>
        (completedAt t \<noteq> None \<longleftrightarrow> int k = n) \<and>
        map action (logs t) =
          Created # replicate k Increment @ (if int k = n then [Completed] else [])"
proof (induction k)
  case 0
  then show ?case using assms by (simp add: handleCreate_ok newEntry_def)
next
  case (Suc k)
  then obtain t where t: "activeTracker ((handleIncrement e ^^ k) (handleCreate e s)) = Val t"
      "current t = Fin (int k)" "target t = Fin n" "completedAt t = None"
      "map action (logs t) = Created # replicate k Increment"
    by auto
  have k: "int k < n" using Suc.prems by simp
  then have p: "plusOne (current t) = Fin (int k + 1)"
    using t(2) assms(3) by (simp add: plusOne_exact)
  have lt: "current t < target t" using t k by simp
  show ?case
  proof (cases "int (Suc k) = n")
    case True
    then have "target t \<le> plusOne (current t)" using t p by simp
    from handleIncrement_reach [OF t(1) lt this] show ?thesis
      using t True p by (simp add: newEntry_def replicate_append_same)
  next
    case False
    then have "plusOne (current t) < target t" using t p k by simp
    from handleIncrement_below [OF t(1) lt this] show ?thesis
      using t False p by (simp add: newEntry_def replicate_append_same)
  qed
qed

section \<open>Invariants of the tracker engine\<close>

lemma handleCreate_inv:
  assumes "list_all P (trackers s)"
    and "\<And>t. current t = Fin 0 \<Longrightarrow> Fin 1 \<le> target t \<Longrightarrow> completedAt t = None \<Longrightarrow> P t"
  shows "list_all P (trackers (handleCreate e s))"
proof (cases "\<exists>v. parseInt (targetStr s) = Some v \<and> Fin 1 \<le> v")
  case True
  then obtain v where v: "parseInt (targetStr s) = Some v" "Fin 1 \<le> v" by blast
  have "list_all P (history s)"
    using assms(1) by (simp add: trackers_def)
  then show ?thesis
    by (simp add: handleCreate_ok [OF v] trackers_def assms(2) v(2))
next
  case False
  then have "\<forall>v. parseInt (targetStr s) = Some v \<longrightarrow> v < Fin 1" by (auto simp add: not_le)
  then show ?thesis using assms(1) by (simp add: handleCreate_reject)
qed

lemma handleIncrement_inv:
  assumes "list_all P (trackers s)"
    and "\<And>t l. P t \<Longrightarrow> current t < target t \<Longrightarrow> plusOne (current t) < target t \<Longrightarrow>
            P (t\<lparr>current := plusOne (current t), logs := l\<rparr>)"
    and "\<And>t c l. P t \<Longrightarrow> current t < target t \<Longrightarrow> target t \<le> plusOne (current t) \<Longrightarrow>
            P (t\<lparr>current := plusOne (current t), completedAt := Some c, logs := l\<rparr>)"
  shows "list_all P (trackers (handleIncrement e s))"
proof (cases "activeTracker s")
  case (Val a)
  then have Pa: "P a" and Ph: "list_all P (history s)"
    using assms(1) by (simp_all add: trackers_def)
  consider "current a < target a" "plusOne (current a) < target a"
    | "current a < target a" "target a \<le> plusOne (current a)" | "target a \<le> current a"
    by (meson not_le)
  then show ?thesis
  proof cases
    case 1
    show ?thesis
      using assms(2) [OF Pa 1] Ph by (simp add: handleIncrement_below [OF Val 1] trackers_def)
  next
    case 2
    show ?thesis
      using assms(3) [OF Pa 2] Ph by (simp add: handleIncrement_reach [OF Val 2] trackers_def)
  next
    case 3
    show ?thesis using assms(1) by (simp add: handleIncrement_noop [OF Val 3])
  qed
qed (use assms(1) in \<open>simp_all add: handleIncrement_none\<close>)

lemma handleDecrement_inv:
  assumes "list_all P (trackers s)"
    and "\<And>t l. P t \<Longrightarrow> \<not> current t \<le> Fin 0 \<Longrightarrow>
            P (t\<lparr>current := minusOne (current t),
                 completedAt := (if target t \<le> current t then None else completedAt t),
                 logs := l\<rparr>)"
  shows "list_all P (trackers (handleDecrement e s))"
proof (cases "activeTracker s")
  case (Val a)
  then have Pa: "P a" and Ph: "list_all P (history s)"
    using assms(1) by (simp_all add: trackers_def)
  show ?thesis
  proof (cases "Fin 0 < current a")
    case True
    then have "\<not> current a \<le> Fin 0" by simp
    from assms(2) [OF Pa this] show ?thesis
      using Ph by (simp add: handleDecrement_pos [OF Val True] trackers_def)
  next
    case False
    then have "current a \<le> Fin 0" by simp
    then show ?thesis using assms(1) by (simp add: handleDecrement_noop [OF Val])
  qed
qed (use assms(1) in \<open>simp_all add: handleDecrement_none\<close>)

lemma handleArchive_inv:
  assumes "list_all P (trackers s)"
    and "\<And>t c l. P t \<Longrightarrow> P (t\<lparr>archivedAt := Some c, logs := l\<rparr>)"
  shows "list_all P (trackers (handleArchive e s))"
proof (cases "activeTracker s")
  case (Val a)
  then have Pa: "P a" and Ph: "list_all P (history s)"
    using assms(1) by (simp_all add: trackers_def)
  show ?thesis
    using assms(2) [OF Pa] Ph by (simp add: handleArchive_eq [OF Val] trackers_def)
qed (use assms(1) in \<open>simp_all add: handleArchive_none\<close>)

lemma handleDeleteHistory_inv:
  assumes "list_all P (trackers s)"
  shows "list_all P (trackers (handleDeleteHistory i s))"
  using assms
  by (auto simp add: handleDeleteHistory_def trackers_def list_all_iff split: slot.splits)

lemma formInput_inv:
  "list_all P (trackers s) \<Longrightarrow> list_all P (trackers (s\<lparr>formLabel := l, targetStr := t\<rparr>))"
  by (simp add: trackers_def)

lemma step_inRange:
  assumes "list_all (\<lambda>t. inRange t \<and> safeCounter t) (trackers s)"
  shows "list_all (\<lambda>t. inRange t \<and> safeCounter t) (trackers (step e s op))"
proof (cases op)
  case (Create l t)
  show ?thesis unfolding Create step.simps
    by (rule handleCreate_inv [OF formInput_inv [OF assms]])
       (simp add: inRange_def safeCounter_def one_le_number)
next
  case Inc
  show ?thesis unfolding Inc step.simps
  proof (rule handleIncrement_inv [OF assms])
    fix t l assume t: "inRange t \<and> safeCounter t" "current t < target t"
    then have h: "Fin 0 \<le> current t" "current t \<le> Fin (2 ^ 53)"
      unfolding inRange_def safeCounter_def by blast+
    from plusOne_safe [OF h t(2)] t(1)
    show "inRange (t\<lparr>current := plusOne (current t), logs := l\<rparr>) \<and>
          safeCounter (t\<lparr>current := plusOne (current t), logs := l\<rparr>)"
      by (simp add: inRange_def safeCounter_def)
  next
    fix t c l assume t: "inRange t \<and> safeCounter t" "current t < target t"
    then have h: "Fin 0 \<le> current t" "current t \<le> Fin (2 ^ 53)"
      unfolding inRange_def safeCounter_def by blast+
    from plusOne_safe [OF h t(2)] t(1)
    show "inRange (t\<lparr>current := plusOne (current t), completedAt := Some c, logs := l\<rparr>) \<and>
          safeCounter (t\<lparr>current := plusOne (current t), completedAt := Some c, logs := l\<rparr>)"
      by (simp add: inRange_def safeCounter_def)
  qed
next
  case Dec
  show ?thesis unfolding Dec step.simps
  proof (rule handleDecrement_inv [OF assms])
    fix t l assume t: "inRange t \<and> safeCounter t" "\<not> current t \<le> Fin 0"
    then have c: "current t \<le> Fin (2 ^ 53)" by (simp add: safeCounter_def)
    from minusOne_safe [OF t(2) c] t(1)
    show "inRange (t\<lparr>current := minusOne (current t),
                     completedAt := (if target t \<le> current t then None else completedAt t),
                     logs := l\<rparr>) \<and>
          safeCounter (t\<lparr>current := minusOne (current t),
                     completedAt := (if target t \<le> current t then None else completedAt t),
                     logs := l\<rparr>)"
      by (auto simp add: inRange_def safeCounter_def)
  qed
next
  case Arch
  show ?thesis unfolding Arch step.simps
    by (rule handleArchive_inv [OF assms]) (simp add: inRange_def safeCounter_def)
next
  case (Delete i)
  show ?thesis unfolding Delete step.simps
    by (rule handleDeleteHistory_inv [OF assms])
qed

lemma step_completion:
  assumes "list_all (\<lambda>t. (inRange t \<and> safeCounter t) \<and> completionOK t) (trackers s)"
  shows "list_all (\<lambda>t. (inRange t \<and> safeCounter t) \<and> completionOK t) (trackers (step e s op))"
proof (cases op)
  case (Create l t)
  show ?thesis unfolding Create step.simps
    by (rule handleCreate_inv [OF formInput_inv [OF assms]])
       (simp add: inRange_def safeCounter_def completionOK_def one_le_number)
next
  case Inc
  show ?thesis unfolding Inc step.simps
  proof (rule handleIncrement_inv [OF assms])
    fix t l
    assume t: "(inRange t \<and> safeCounter t) \<and> completionOK t" "current t < target t"
      and b: "plusOne (current t) < target t"
    then have h: "Fin 0 \<le> current t" "current t \<le> Fin (2 ^ 53)"
      unfolding inRange_def safeCounter_def by blast+
    from t have n: "completedAt t = None" unfolding completionOK_def by auto
    from plusOne_safe [OF h t(2)] t(1) b n
    show "(inRange (t\<lparr>current := plusOne (current t), logs := l\<rparr>) \<and>
           safeCounter (t\<lparr>current := plusOne (current t), logs := l\<rparr>)) \<and>
          completionOK (t\<lparr>current := plusOne (current t), logs := l\<rparr>)"
      by (simp add: inRange_def safeCounter_def completionOK_def)
  next
    fix t c l
    assume t: "(inRange t \<and> safeCounter t) \<and> completionOK t" "current t < target t"
      and b: "target t \<le> plusOne (current t)"
    then have h: "Fin 0 \<le> current t" "current t \<le> Fin (2 ^ 53)"
      unfolding inRange_def safeCounter_def by blast+
    note p = plusOne_safe [OF h t(2)]
    from p(3) b have "plusOne (current t) = target t" by simp
    with p t(1)
    show "(inRange (t\<lparr>current := plusOne (current t), completedAt := Some c, logs := l\<rparr>) \<and>
           safeCounter (t\<lparr>current := plusOne (current t), completedAt := Some c,
             logs := l\<rparr>)) \<and>
          completionOK (t\<lparr>current := plusOne (current t), completedAt := Some c, logs := l\<rparr>)"
      by (simp add: inRange_def safeCounter_def completionOK_def)
  qed
next
  case Dec
  show ?thesis unfolding Dec step.simps
  proof (rule handleDecrement_inv [OF assms])
    fix t l assume t: "(inRange t \<and> safeCounter t) \<and> completionOK t" "\<not> current t \<le> Fin 0"
    then have c: "current t \<le> Fin (2 ^ 53)" by (simp add: safeCounter_def)
    from minusOne_safe [OF t(2) c] t(1)
    show "(inRange (t\<lparr>current := minusOne (current t),
                     completedAt := (if target t \<le> current t then None else completedAt t),
                     logs := l\<rparr>) \<and>
          safeCounter (t\<lparr>current := minusOne (current t),
                     completedAt := (if target t \<le> current t then None else completedAt t),
                     logs := l\<rparr>)) \<and>
          completionOK (t\<lparr>current := minusOne (current t),
                     completedAt := (if target t \<le> current t then None else completedAt t),
                     logs := l\<rparr>)"
      by (auto simp add: inRange_def safeCounter_def completionOK_def)
  qed
next
  case Arch
  show ?thesis unfolding Arch step.simps
    by (rule handleArchive_inv [OF assms]) (simp add: inRange_def safeCounter_def completionOK_def)
next
  case (Delete i)
  show ?thesis unfolding Delete step.simps
    by (rule handleDeleteHistory_inv [OF assms])
qed

lemma run_invariant:
  assumes "\<And>s op. P s \<Longrightarrow> P (step e s op)"
  shows "P s \<Longrightarrow> P (run e s ops)"
  unfolding run_def by (induction ops arbitrary: s) (simp_all add: assms)

section \<open>Reading back what the export writes\<close>

lemma asNumber_inv [simp]: "isFinite x \<Longrightarrow> asNumber (Some (numberToJson x)) = Some x"
  by (cases x) (simp_all add: asNumber_def numberToJson_def isFinite_def)

lemma asNumberOrNull_inv [simp]:
  "finiteOrNull v \<Longrightarrow> asNumberOrNull (Some (numberOrNull v)) = Some v"
proof (cases v)
  case None
  then show ?thesis by (simp add: asNumberOrNull_def numberOrNull_def)
next
  case (Some x)
  assume "finiteOrNull v"
  with Some show ?thesis
    by (cases x)
       (simp_all add: asNumberOrNull_def numberOrNull_def numberToJson_def finiteOrNull_def
          isFinite_def)
qed

lemma asLogEntry_inv [simp]:
  "isFinite (timestamp l) \<Longrightarrow> asLogEntry (logEntryToJson l) = Some l"
  by (cases "action l")
     (simp_all add: asLogEntry_def logEntryToJson_def asString_def asAction_def)

lemma those_asLogEntry [simp]:
  "list_all (\<lambda>l. isFinite (timestamp l)) ls \<Longrightarrow>
   those (map (asLogEntry \<circ> logEntryToJson) ls) = Some ls"
  by (induction ls) simp_all

lemma asTracker_inv [simp]: "finiteTracker t \<Longrightarrow> asTracker (trackerToJson t) = Some t"
  by (simp add: asTracker_def trackerToJson_def asString_def asLogs_def finiteTracker_def)

lemma those_asTracker [simp]:
  "list_all finiteTracker ts \<Longrightarrow> those (map (asTracker \<circ> trackerToJson) ts) = Some ts"
  by (induction ts) simp_all

lemma asTrackerSlot_inv [simp]:
  "finiteTracker t \<Longrightarrow> asTrackerSlot (Some (trackerToJson t)) = Some (Val t)"
proof -
  assume f: "finiteTracker t"
  have "asTrackerSlot (Some (trackerToJson t)) = map_option Val (asTracker (trackerToJson t))"
    by (simp add: asTrackerSlot_def trackerToJson_def)
  then show ?thesis using f by simp
qed

lemma asTrackerSlot_absent [simp]:
  "asTrackerSlot None = Some Undefined" "asTrackerSlot (Some JNull) = Some Null"
  by (simp_all add: asTrackerSlot_def)

lemma asHistorySlot_absent [simp]:
  "asHistorySlot None = Some Undefined" "asHistorySlot (Some JNull) = Some Null"
  by (simp_all add: asHistorySlot_def)

lemma asHistorySlot_inv [simp]:
  "list_all finiteTracker ts \<Longrightarrow>
   asHistorySlot (Some (JArr (map trackerToJson ts))) = Some (Val ts)"
  by (simp add: asHistorySlot_def)

lemma trackerToJson_truthy [simp]: "truthy (trackerToJson t)" "trackerToJson t \<noteq> JNull"
  by (simp_all add: trackerToJson_def)

lemma exampleTracker_finite [simp]: "finiteTracker (exampleTracker c t)"
  by (simp add: finiteTracker_def exampleTracker_def isFinite_def finiteOrNull_def)

section \<open>Concrete runs used below\<close>

lemma roundInt_back: "roundInt 18014398509481983 = Fin 18014398509481984"
  by code_simp

lemma parseInt_overflow: "parseInt (replicate 309 CHR ''9'') = Some PosInf"
  by code_simp



lemma trim_examples: "trim [] = []" "trim [CHR 0xC2, CHR 0xA0] = []" "trim '' Laps '' = ''Laps''"
  by code_simp+

lemma toString_examples:
  "toString 36 1000 = ''rs''" "toString 36 1002 = ''ru''" "numberToString (Fin 20) = ''20''"
  by code_simp+

lemma numberToString_examples:
  "numberToString (Fin 1000000000000000000000) = ''1e+21''"
  "numberToString (Fin 1180591620717411303424) = ''1.1805916207174113e+21''"
  "numberToString (Fin 999999999999999868928) = ''999999999999999900000''"
  "numberToString (Fin 1152921504606846976) = ''1152921504606847000''"
  "numberToString (Fin 9007199254740992) = ''9007199254740992''"
  "toString 10 1000000000000000000000 = ''1e+21''"
  "numberToString PosInf = ''Infinity''"
  by code_simp+

lemma create_overflow:
  "handleCreate exampleEnv (initialState\<lparr>targetStr := replicate 309 CHR ''9''\<rparr>) =
     initialState\<lparr>activeTracker := Val
          \<lparr>tracker_id = ''k3x9q2m7rs'', label = ''Tracker'', target = PosInf, current = Fin 0,
           createdAt = Fin 1001, completedAt = None, archivedAt = None,
           logs = [\<lparr>entry_id = ''k3x9q2m7ru'', timestamp = Fin 1003, action = Created,
                    detail = ''Created \"Tracker\" with target Infinity''\<rparr>]\<rparr>,
       nowCalls := 4, randomCalls := 2\<rparr>"
proof -
  have p: "parseInt (targetStr (initialState\<lparr>targetStr := replicate 309 CHR ''9''\<rparr>)) =
      Some PosInf"
    by (simp add: parseInt_overflow)
  have "Fin 1 \<le> PosInf" by simp
  from handleCreate_ok [OF p this, of exampleEnv] show ?thesis
    by (simp add: initialState_def exampleEnv_def newEntry_def createdDetail_def slice_def
        resolvedLabel_def trim_examples toString_examples numberToString_def)
qed

section \<open>The tracker engine\<close>

text \<open>
  Claim C1, as amended. For a tracker with \<open>current < target\<close>, \<open>handleIncrement\<close> yields
  in one transition the tracker whose \<open>current\<close> is the number nearest to \<open>current + 1\<close>,
  with one \<open>increment\<close> entry appended; that number is \<open>current + 1\<close> itself for every whole
  \<open>current\<close> from \<open>-2^53\<close> to \<open>2^53 - 1\<close>. When the new \<open>current\<close> reaches \<open>target\<close>, the
  same transition also sets \<open>completedAt\<close> to the clock's reading and appends one
  \<open>completed\<close> entry after the \<open>increment\<close> entry. For a tracker with
  \<open>current \<ge> target\<close> the state is unchanged. After a create with target \<open>20\<close>,
  \<open>completedAt\<close> is null after each of the first 19 increments and non-null after the 20th,
  the 20th appends an \<open>increment\<close> and a \<open>completed\<close> entry, and the log is then one
  \<open>created\<close>, twenty \<open>increment\<close> and one \<open>completed\<close> entry.
\<close>

theorem increment_transition:
  "(\<forall>a. activeTracker s = Val a \<longrightarrow>
      (current a < target a \<and> plusOne (current a) < target a \<longrightarrow>
         handleIncrement e s =
           s\<lparr>activeTracker := Val (a\<lparr>current := plusOne (current a),
                logs := logs a @ [newEntry e (nowCalls s) (randomCalls s) Increment
                                    (progress (plusOne (current a)) (target a))]\<rparr>),
             nowCalls := nowCalls s + 2, randomCalls := randomCalls s + 1\<rparr>) \<and>
      (current a < target a \<and> target a \<le> plusOne (current a) \<longrightarrow>
         handleIncrement e s =
           s\<lparr>activeTracker := Val (a\<lparr>current := plusOne (current a),
                completedAt := Some (Fin (clock e (nowCalls s + 2))),
                logs := logs a @ [newEntry e (nowCalls s) (randomCalls s) Increment
                                    (progress (plusOne (current a)) (target a)),
                                  newEntry e (nowCalls s + 3) (randomCalls s + 1) Completed
                                    completedDetail]\<rparr>),
             nowCalls := nowCalls s + 5, randomCalls := randomCalls s + 2\<rparr>) \<and>
      (target a \<le> current a \<longrightarrow> handleIncrement e s = s)) \<and>
   (\<forall>c. - (2 ^ 53) \<le> c \<and> c < 2 ^ 53 \<longrightarrow> plusOne (Fin c) = Fin (c + 1)) \<and>
   (targetStr s = ''20'' \<longrightarrow>
      (\<forall>k \<le> 19. \<exists>t. activeTracker ((handleIncrement e ^^ k) (handleCreate e s)) = Val t \<and>
                     completedAt t = None) \<and>
      (\<exists>t19 t20 i c.
          activeTracker ((handleIncrement e ^^ 19) (handleCreate e s)) = Val t19 \<and>
          activeTracker ((handleIncrement e ^^ 20) (handleCreate e s)) = Val t20 \<and>
          completedAt t20 \<noteq> None \<and>
          logs t20 = logs t19 @ [i, c] \<and> action i = Increment \<and> action c = Completed \<and>
          map action (logs t20) = Created # replicate 20 Increment @ [Completed] \<and>
          length (filter (\<lambda>l. action l = Created) (logs t20)) = 1 \<and>
          length (filter (\<lambda>l. action l = Increment) (logs t20)) = 20 \<and>
          length (filter (\<lambda>l. action l = Completed) (logs t20)) = 1 \<and>
          length (logs t20) = 22))"
proof (intro conjI allI impI)
  fix a assume "activeTracker s = Val a"
    "current a < target a \<and> plusOne (current a) < target a"
  then show "handleIncrement e s =
      s\<lparr>activeTracker := Val (a\<lparr>current := plusOne (current a),
           logs := logs a @ [newEntry e (nowCalls s) (randomCalls s) Increment
                               (progress (plusOne (current a)) (target a))]\<rparr>),
        nowCalls := nowCalls s + 2, randomCalls := randomCalls s + 1\<rparr>"
    by (simp add: handleIncrement_below)
next
  fix a assume "activeTracker s = Val a"
    "current a < target a \<and> target a \<le> plusOne (current a)"
  then show "handleIncrement e s =
      s\<lparr>activeTracker := Val (a\<lparr>current := plusOne (current a),
           completedAt := Some (Fin (clock e (nowCalls s + 2))),
           logs := logs a @ [newEntry e (nowCalls s) (randomCalls s) Increment
                               (progress (plusOne (current a)) (target a)),
                             newEntry e (nowCalls s + 3) (randomCalls s + 1) Completed
                               completedDetail]\<rparr>),
        nowCalls := nowCalls s + 5, randomCalls := randomCalls s + 2\<rparr>"
    by (simp add: handleIncrement_reach)
next
  fix a assume "activeTracker s = Val a" "target a \<le> current a"
  then show "handleIncrement e s = s" by (rule handleIncrement_noop)
next
  fix c :: int assume "- (2 ^ 53) \<le> c \<and> c < 2 ^ 53"
  then show "plusOne (Fin c) = Fin (c + 1)" by (simp add: plusOne_exact)
next
  fix k :: nat assume s: "targetStr s = ''20''" and k: "k \<le> 19"
  have p: "parseInt (targetStr s) = Some (Fin 20)" by (simp add: s parseInt_20)
  from create_then_increments [OF p, of k e] k
  show "\<exists>t. activeTracker ((handleIncrement e ^^ k) (handleCreate e s)) = Val t \<and>
            completedAt t = None"
    by auto
next
  assume s: "targetStr s = ''20''"
  have p: "parseInt (targetStr s) = Some (Fin 20)" by (simp add: s parseInt_20)
  from create_then_increments [OF p, of 19 e]
  obtain t19 where t19: "activeTracker ((handleIncrement e ^^ 19) (handleCreate e s)) = Val t19"
    "current t19 = Fin 19" "target t19 = Fin 20"
    "map action (logs t19) = Created # replicate 19 Increment"
    by auto
  define s19 where "s19 = (handleIncrement e ^^ 19) (handleCreate e s)"
  define i where "i = newEntry e (nowCalls s19) (randomCalls s19) Increment
              (progress (plusOne (current t19)) (target t19))"
  define c where "c = newEntry e (nowCalls s19 + 3) (randomCalls s19 + 1) Completed completedDetail"
  define t20 where "t20 = t19\<lparr>current := plusOne (current t19),
                  completedAt := Some (Fin (clock e (nowCalls s19 + 2))),
                  logs := logs t19 @ [i, c]\<rparr>"
  have "plusOne (current t19) = Fin 20" using t19 by (simp add: plusOne_exact)
  then have r: "current t19 < target t19" "target t19 \<le> plusOne (current t19)"
    using t19 by simp_all
  have "(handleIncrement e ^^ 20) (handleCreate e s) = handleIncrement e s19"
    by (simp add: eval_nat_numeral s19_def)
  then have t20: "activeTracker ((handleIncrement e ^^ 20) (handleCreate e s)) = Val t20"
    using t19(1) by (simp add: handleIncrement_reach [OF _ r] s19_def t20_def i_def c_def)
  have ic: "action i = Increment" "action c = Completed"
    by (simp_all add: i_def c_def newEntry_def)
  have l: "logs t20 = logs t19 @ [i, c]" "completedAt t20 \<noteq> None"
    by (simp_all add: t20_def)
  have m: "map action (logs t20) = Created # replicate 20 Increment @ [Completed]"
    using t19(4) ic by (simp add: l eval_nat_numeral)
  have f: "length (filter (\<lambda>l. action l = x) (logs t20)) =
           length (filter (\<lambda>a. a = x) (map action (logs t20)))" for x
    by (simp only: filter_map comp_def length_map)
  have n: "length (logs t20) = length (map action (logs t20))" by simp
  have cnt: "length (filter (\<lambda>l. action l = Created) (logs t20)) = 1"
    "length (filter (\<lambda>l. action l = Increment) (logs t20)) = 20"
    "length (filter (\<lambda>l. action l = Completed) (logs t20)) = 1"
    "length (logs t20) = 22"
    unfolding f n m by simp_all
  show "\<exists>t19 t20 i c.
          activeTracker ((handleIncrement e ^^ 19) (handleCreate e s)) = Val t19 \<and>
          activeTracker ((handleIncrement e ^^ 20) (handleCreate e s)) = Val t20 \<and>
          completedAt t20 \<noteq> None \<and>
          logs t20 = logs t19 @ [i, c] \<and> action i = Increment \<and> action c = Completed \<and>
          map action (logs t20) = Created # replicate 20 Increment @ [Completed] \<and>
          length (filter (\<lambda>l. action l = Created) (logs t20)) = 1 \<and>
          length (filter (\<lambda>l. action l = Increment) (logs t20)) = 20 \<and>
          length (filter (\<lambda>l. action l = Completed) (logs t20)) = 1 \<and>
          length (logs t20) = 22"
    apply (rule exI [of _ t19], rule exI [of _ t20], rule exI [of _ i], rule exI [of _ c])
    by (intro conjI; fact)
qed

theorem increment_transition_witness:
  "handleIncrement exampleEnv (initialState\<lparr>activeTracker := Val (exampleTracker 0 2)\<rparr>) =
     initialState\<lparr>activeTracker := Val ((exampleTracker 0 2)\<lparr>current := Fin 1,
         logs := [newEntry exampleEnv 0 0 Increment (progress (Fin 1) (Fin 2))]\<rparr>),
       nowCalls := 2, randomCalls := 1\<rparr> \<and>
   handleIncrement exampleEnv (initialState\<lparr>activeTracker := Val (exampleTracker 1 2)\<rparr>) =
     initialState\<lparr>activeTracker := Val ((exampleTracker 1 2)\<lparr>current := Fin 2,
         completedAt := Some (Fin 1002),
         logs := [newEntry exampleEnv 0 0 Increment (progress (Fin 2) (Fin 2)),
                  newEntry exampleEnv 3 1 Completed completedDetail]\<rparr>),
       nowCalls := 5, randomCalls := 2\<rparr> \<and>
   handleIncrement exampleEnv (initialState\<lparr>activeTracker := Val (exampleTracker 2 2)\<rparr>) =
     initialState\<lparr>activeTracker := Val (exampleTracker 2 2)\<rparr> \<and>
   (\<exists>t. activeTracker ((handleIncrement exampleEnv ^^ 20)
            (handleCreate exampleEnv (initialState\<lparr>targetStr := ''20''\<rparr>))) = Val t \<and>
        completedAt t \<noteq> None \<and> length (logs t) = 22)"
proof -
  have p: "plusOne (Fin 0) = Fin 1" "plusOne (Fin 1) = Fin 2"
    by (simp_all add: plusOne_exact)
  have a: "handleIncrement exampleEnv (initialState\<lparr>activeTracker := Val (exampleTracker 0 2)\<rparr>) =
     initialState\<lparr>activeTracker := Val ((exampleTracker 0 2)\<lparr>current := Fin 1,
         logs := [newEntry exampleEnv 0 0 Increment (progress (Fin 1) (Fin 2))]\<rparr>),
       nowCalls := 2, randomCalls := 1\<rparr>"
    using increment_transition
      [of "initialState\<lparr>activeTracker := Val (exampleTracker 0 2)\<rparr>" exampleEnv]
    by (simp add: initialState_def exampleTracker_def p)
  have b: "handleIncrement exampleEnv (initialState\<lparr>activeTracker := Val (exampleTracker 1 2)\<rparr>) =
     initialState\<lparr>activeTracker := Val ((exampleTracker 1 2)\<lparr>current := Fin 2,
         completedAt := Some (Fin 1002),
         logs := [newEntry exampleEnv 0 0 Increment (progress (Fin 2) (Fin 2)),
                  newEntry exampleEnv 3 1 Completed completedDetail]\<rparr>),
       nowCalls := 5, randomCalls := 2\<rparr>"
    using increment_transition
      [of "initialState\<lparr>activeTracker := Val (exampleTracker 1 2)\<rparr>" exampleEnv]
    by (simp add: initialState_def exampleTracker_def exampleEnv_def p)
  have c: "handleIncrement exampleEnv (initialState\<lparr>activeTracker := Val (exampleTracker 2 2)\<rparr>) =
     initialState\<lparr>activeTracker := Val (exampleTracker 2 2)\<rparr>"
    using increment_transition
      [of "initialState\<lparr>activeTracker := Val (exampleTracker 2 2)\<rparr>" exampleEnv]
    by (simp add: initialState_def exampleTracker_def)
  have d: "\<exists>t. activeTracker ((handleIncrement exampleEnv ^^ 20)
            (handleCreate exampleEnv (initialState\<lparr>targetStr := ''20''\<rparr>))) = Val t \<and>
        completedAt t \<noteq> None \<and> length (logs t) = 22"
    using increment_transition [of "initialState\<lparr>targetStr := ''20''\<rparr>" exampleEnv]
    by auto
  from a b c d show ?thesis by (intro conjI)
qed

text \<open>
  The claim as the specification words it fails on a tracker with \<open>current = 2^53\<close> and
  \<open>target = 2^53 + 2\<close>: \<open>current < target\<close>, an \<open>increment\<close> entry is appended, and
  \<open>current\<close> is still \<open>2^53\<close>, because \<open>2^53 + 1\<close> is no number and the sum rounds back.
\<close>

theorem increment_transition_counterexample:
  "current (exampleTracker 9007199254740992 9007199254740994) <
     target (exampleTracker 9007199254740992 9007199254740994) \<and>
   handleIncrement exampleEnv
     (initialState\<lparr>activeTracker := Val (exampleTracker 9007199254740992 9007199254740994)\<rparr>) =
     initialState\<lparr>activeTracker := Val ((exampleTracker 9007199254740992 9007199254740994)\<lparr>
         logs := [newEntry exampleEnv 0 0 Increment
                    (progress (Fin 9007199254740992) (Fin 9007199254740994))]\<rparr>),
       nowCalls := 2, randomCalls := 1\<rparr>"
proof -
  have p: "plusOne (Fin 9007199254740992) = Fin 9007199254740992"
    by (simp add: plusOne_def roundInt_stall)
  have a: "activeTracker (initialState\<lparr>activeTracker :=
      Val (exampleTracker 9007199254740992 9007199254740994)\<rparr>) =
      Val (exampleTracker 9007199254740992 9007199254740994)"
    by simp
  have l: "current (exampleTracker 9007199254740992 9007199254740994) <
     target (exampleTracker 9007199254740992 9007199254740994)"
    by (simp add: exampleTracker_def)
  have b: "plusOne (current (exampleTracker 9007199254740992 9007199254740994)) <
     target (exampleTracker 9007199254740992 9007199254740994)"
    by (simp add: exampleTracker_def p)
  from handleIncrement_below [OF a l b, of exampleEnv] l show ?thesis
    by (simp add: initialState_def exampleTracker_def p)
qed

text \<open>
  Claim C2. In every state reached from the state without any tracker by create, increment,
  decrement and archive operations (and deletions from the history), every tracker, active
  or archived, satisfies \<open>0 \<le> current \<le> target\<close> and \<open>target \<ge> 1\<close>. More generally the
  operations keep this invariant from any state whose trackers satisfy it and have their
  counter at most \<open>2^53\<close>, and they keep the counter at most \<open>2^53\<close> (where adding one
  leaves it, \<open>2^53 + 1\<close> being no number).
\<close>

theorem range_invariant:
  "list_all inRange (trackers (run e initialState ops)) \<and>
   (list_all inRange (trackers s) \<and> list_all safeCounter (trackers s) \<longrightarrow>
      list_all inRange (trackers (run e s ops)) \<and>
      list_all safeCounter (trackers (run e s ops)))"
proof -
  have g: "list_all inRange (trackers (run e s ops)) \<and>
           list_all safeCounter (trackers (run e s ops))"
    if "list_all inRange (trackers s)" and "list_all safeCounter (trackers s)" for s
  proof -
    from that have i: "list_all (\<lambda>t. inRange t \<and> safeCounter t) (trackers s)"
      by (simp add: list_all_iff)
    have "list_all (\<lambda>t. inRange t \<and> safeCounter t) (trackers (run e s ops))"
    proof (rule run_invariant
        [where P = "\<lambda>s. list_all (\<lambda>t. inRange t \<and> safeCounter t) (trackers s)"])
      show "list_all (\<lambda>t. inRange t \<and> safeCounter t) (trackers s)" by (rule i)
    qed (rule step_inRange)
    then show ?thesis by (simp add: list_all_iff)
  qed
  have "list_all inRange (trackers (run e initialState ops))"
    using g [of initialState] by (simp add: trackers_def initialState_def)
  with g [of s] show ?thesis by blast
qed

theorem range_invariant_witness:
  "list_all inRange (trackers initialState) \<and> list_all safeCounter (trackers initialState) \<and>
   list_all inRange (trackers (run exampleEnv initialState
      [Create ''Laps'' ''2'', Inc, Inc, Inc, Dec, Arch, Create [] ''5'', Inc])) \<and>
   list_all safeCounter (trackers (run exampleEnv initialState
      [Create ''Laps'' ''2'', Inc, Inc, Inc, Dec, Arch, Create [] ''5'', Inc])) \<and>
   length (trackers (run exampleEnv initialState
      [Create ''Laps'' ''2'', Inc, Inc, Inc, Dec, Arch, Create [] ''5'', Inc])) = 2"
proof -
  have i: "list_all inRange (trackers initialState)"
    and c: "list_all safeCounter (trackers initialState)"
    by (simp_all add: trackers_def initialState_def)
  have n: "length (trackers (run exampleEnv initialState
      [Create ''Laps'' ''2'', Inc, Inc, Inc, Dec, Arch, Create [] ''5'', Inc])) = 2"
    by code_simp
  from i c n range_invariant [of exampleEnv
      "[Create ''Laps'' ''2'', Inc, Inc, Inc, Dec, Arch, Create [] ''5'', Inc]" initialState]
  show ?thesis by blast
qed

text \<open>
  Claim C3, as amended. For a tracker with \<open>current > 0\<close>, \<open>handleDecrement\<close> yields the
  tracker whose \<open>current\<close> is the number nearest to \<open>current - 1\<close>, with one \<open>decrement\<close>
  entry appended, and \<open>completedAt\<close> reset to null in the same transition when \<open>current\<close>
  was at or above \<open>target\<close> (and kept otherwise); that number is \<open>current - 1\<close> itself for
  every whole \<open>current\<close> from \<open>-2^53 + 1\<close> to \<open>2^53\<close>. For a tracker with \<open>current = 0\<close> the
  state, and with it the tracker and its log, is unchanged.
\<close>

theorem decrement_transition:
  "(activeTracker s = Val a \<longrightarrow>
     (Fin 0 < current a \<longrightarrow>
        handleDecrement e s =
          s\<lparr>activeTracker := Val (a\<lparr>current := minusOne (current a),
               completedAt := (if target a \<le> current a then None else completedAt a),
               logs := logs a @ [newEntry e (nowCalls s) (randomCalls s) Decrement
                                   (progress (minusOne (current a)) (target a))]\<rparr>),
            nowCalls := nowCalls s + 2, randomCalls := randomCalls s + 1\<rparr>) \<and>
     (current a = Fin 0 \<longrightarrow> handleDecrement e s = s)) \<and>
   (- (2 ^ 53) < c \<and> c \<le> 2 ^ 53 \<longrightarrow> minusOne (Fin c) = Fin (c - 1))"
  by (simp add: handleDecrement_pos handleDecrement_noop minusOne_exact)

theorem decrement_transition_witness:
  "handleDecrement exampleEnv
     (initialState\<lparr>activeTracker := Val ((exampleTracker 2 2)\<lparr>completedAt := Some (Fin 77)\<rparr>)\<rparr>) =
     initialState\<lparr>activeTracker := Val ((exampleTracker 1 2)\<lparr>
         logs := [newEntry exampleEnv 0 0 Decrement (progress (Fin 1) (Fin 2))]\<rparr>),
       nowCalls := 2, randomCalls := 1\<rparr> \<and>
   handleDecrement exampleEnv (initialState\<lparr>activeTracker := Val (exampleTracker 0 2)\<rparr>) =
     initialState\<lparr>activeTracker := Val (exampleTracker 0 2)\<rparr>"
proof -
  have p: "minusOne (Fin 2) = Fin 1"
    using decrement_transition [of _ _ _ 2] by simp
  have a: "handleDecrement exampleEnv
     (initialState\<lparr>activeTracker := Val ((exampleTracker 2 2)\<lparr>completedAt := Some (Fin 77)\<rparr>)\<rparr>) =
     initialState\<lparr>activeTracker := Val ((exampleTracker 1 2)\<lparr>
         logs := [newEntry exampleEnv 0 0 Decrement (progress (Fin 1) (Fin 2))]\<rparr>),
       nowCalls := 2, randomCalls := 1\<rparr>"
    using decrement_transition
      [of "initialState\<lparr>activeTracker :=
             Val ((exampleTracker 2 2)\<lparr>completedAt := Some (Fin 77)\<rparr>)\<rparr>"
          "(exampleTracker 2 2)\<lparr>completedAt := Some (Fin 77)\<rparr>" exampleEnv 2]
    by (simp add: initialState_def exampleTracker_def p)
  have b: "handleDecrement exampleEnv (initialState\<lparr>activeTracker := Val (exampleTracker 0 2)\<rparr>) =
     initialState\<lparr>activeTracker := Val (exampleTracker 0 2)\<rparr>"
    using decrement_transition
      [of "initialState\<lparr>activeTracker := Val (exampleTracker 0 2)\<rparr>" "exampleTracker 0 2"
          exampleEnv 0]
    by (simp add: initialState_def exampleTracker_def)
  from a b show ?thesis by (intro conjI)
qed

text \<open>
  The claim as the specification words it fails on a completed tracker with
  \<open>current = target = 2^54\<close>: \<open>current > 0\<close>, a \<open>decrement\<close> entry is appended and
  \<open>completedAt\<close> is reset, and \<open>current\<close> is still \<open>2^54\<close>, because \<open>2^54 - 1\<close> is no
  number and the difference rounds back.
\<close>

theorem decrement_transition_counterexample:
  "Fin 0 < current (exampleTracker 18014398509481984 18014398509481984) \<and>
   handleDecrement exampleEnv
     (initialState\<lparr>activeTracker :=
        Val ((exampleTracker 18014398509481984 18014398509481984)\<lparr>
               completedAt := Some (Fin 77)\<rparr>)\<rparr>) =
     initialState\<lparr>activeTracker := Val ((exampleTracker 18014398509481984 18014398509481984)\<lparr>
         logs := [newEntry exampleEnv 0 0 Decrement
                    (progress (Fin 18014398509481984) (Fin 18014398509481984))]\<rparr>),
       nowCalls := 2, randomCalls := 1\<rparr>"
proof -
  have p: "minusOne (Fin 18014398509481984) = Fin 18014398509481984"
    by (simp add: minusOne_def roundInt_back)
  have a: "activeTracker (initialState\<lparr>activeTracker :=
        Val ((exampleTracker 18014398509481984 18014398509481984)\<lparr>
               completedAt := Some (Fin 77)\<rparr>)\<rparr>) =
      Val ((exampleTracker 18014398509481984 18014398509481984)\<lparr>completedAt := Some (Fin 77)\<rparr>)"
    by simp
  have l: "Fin 0 < current ((exampleTracker 18014398509481984 18014398509481984)\<lparr>
               completedAt := Some (Fin 77)\<rparr>)"
    by (simp add: exampleTracker_def)
  from handleDecrement_pos [OF a l, of exampleEnv] show ?thesis
    by (simp add: initialState_def exampleTracker_def p)
qed

text \<open>
  Claim C4. In every state reached from the state without any tracker by create, increment,
  decrement and archive operations (and deletions from the history), every tracker, active
  or archived, has \<open>completedAt\<close> non-null exactly when \<open>current = target\<close>. More generally
  the operations keep this from any state in which every tracker has it, is in range and has
  its counter at most \<open>2^53\<close>.
\<close>

theorem completion_invariant:
  "list_all completionOK (trackers (run e initialState ops)) \<and>
   (list_all inRange (trackers s) \<and> list_all safeCounter (trackers s) \<and>
    list_all completionOK (trackers s) \<longrightarrow>
      list_all completionOK (trackers (run e s ops)))"
proof -
  have g: "list_all completionOK (trackers (run e s ops))"
    if "list_all inRange (trackers s)" and "list_all safeCounter (trackers s)"
      and "list_all completionOK (trackers s)" for s
  proof -
    have "list_all (\<lambda>t. (inRange t \<and> safeCounter t) \<and> completionOK t)
            (trackers (run e s ops))"
    proof (rule run_invariant
        [where P = "\<lambda>s. list_all (\<lambda>t. (inRange t \<and> safeCounter t) \<and> completionOK t)
                           (trackers s)"])
      show "list_all (\<lambda>t. (inRange t \<and> safeCounter t) \<and> completionOK t) (trackers s)"
        using that by (simp add: list_all_iff)
    qed (rule step_completion)
    then show ?thesis by (simp add: list_all_iff)
  qed
  have "list_all completionOK (trackers (run e initialState ops))"
    using g [of initialState] by (simp add: trackers_def initialState_def)
  with g [of s] show ?thesis by blast
qed

theorem completion_invariant_witness:
  "list_all inRange (trackers initialState) \<and> list_all safeCounter (trackers initialState) \<and>
   list_all completionOK (trackers initialState) \<and>
   list_all completionOK (trackers (run exampleEnv initialState
      [Create ''Laps'' ''2'', Inc, Inc, Arch, Create [] ''3'', Inc, Inc, Inc, Dec])) \<and>
   map completedAt (trackers (run exampleEnv initialState
      [Create ''Laps'' ''2'', Inc, Inc, Arch, Create [] ''3'', Inc, Inc, Inc, Dec])) =
     [None, Some (Fin 1008)]"
proof -
  have i: "list_all inRange (trackers initialState)"
    and f: "list_all safeCounter (trackers initialState)"
    and c: "list_all completionOK (trackers initialState)"
    by (simp_all add: trackers_def initialState_def)
  have n: "map completedAt (trackers (run exampleEnv initialState
      [Create ''Laps'' ''2'', Inc, Inc, Arch, Create [] ''3'', Inc, Inc, Inc, Dec])) =
     [None, Some (Fin 1008)]"
    by code_simp
  from i f c n completion_invariant [of exampleEnv
      "[Create ''Laps'' ''2'', Inc, Inc, Arch, Create [] ''3'', Inc, Inc, Inc, Dec]" initialState]
  show ?thesis by blast
qed




text \<open>
  Claim C6. With an active tracker, \<open>handleArchive\<close> sets its \<open>archivedAt\<close> to the clock's
  reading, appends one \<open>archived\<close> entry to its log, puts the resulting tracker in front of
  the history, whose earlier entries stay as they are and in order, and sets the active slot
  to null. No other field of the tracker changes.
\<close>

theorem archive_transition:
  "activeTracker s = Val a \<Longrightarrow>
     handleArchive e s =
       s\<lparr>activeTracker := Null,
         history := a\<lparr>archivedAt := Some (Fin (clock e (nowCalls s))),
                      logs := logs a @ [newEntry e (nowCalls s + 1) (randomCalls s) Archived
                                          ''Tracker archived'']\<rparr> # history s,
         nowCalls := nowCalls s + 3, randomCalls := randomCalls s + 1\<rparr>"
  by (rule handleArchive_eq)

theorem archive_transition_witness:
  "handleArchive exampleEnv
     (initialState\<lparr>activeTracker := Val (exampleTracker 1 2), history := [exampleTracker 3 3]\<rparr>) =
     initialState\<lparr>activeTracker := Null,
       history := [(exampleTracker 1 2)\<lparr>archivedAt := Some (Fin 1000),
                     logs := [newEntry exampleEnv 1 0 Archived ''Tracker archived'']\<rparr>,
                   exampleTracker 3 3],
       nowCalls := 3, randomCalls := 1\<rparr>"
  using archive_transition
    [of "initialState\<lparr>activeTracker := Val (exampleTracker 1 2), history := [exampleTracker 3 3]\<rparr>"
        "exampleTracker 1 2" exampleEnv]
  by (simp add: initialState_def exampleEnv_def exampleTracker_def)

section \<open>Export and import\<close>

lemma processFile_unparsed:
  "processFile None s = Failed (s\<lparr>importError := invalidFile\<rparr>)"
  "processFile (Some JNull) s = Failed (s\<lparr>importError := invalidFile\<rparr>)"
  by (simp_all add: processFile_def Let_def)

lemma processFile_parsed:
  "p \<noteq> JNull \<Longrightarrow>
   processFile (Some p) s =
     (if falsy (getProp p ''version'') \<or>
         (falsy (getProp p ''activeTracker'') \<and> falsy (getProp p ''history''))
      then Failed (s\<lparr>importError := invalidFile\<rparr>)
      else (case asAppData p of
              None \<Rightarrow>
                Untyped (getProp p ''activeTracker'') (orEmpty (getProp p ''history''))
            | Some d \<Rightarrow> Imported (handleImport d (s\<lparr>importError := []\<rparr>))))"
  by (cases p) (auto simp add: processFile_def Let_def)

lemma getProp_JNull: "falsy (getProp JNull k)"
  by (simp add: getProp_def falsy_def)

lemma falsy_cases:
  "falsy v \<longleftrightarrow>
     v = None \<or> v = Some JNull \<or> v = Some (JBool False) \<or> v = Some (JNum (Fin 0)) \<or> v = Some (JStr [])"
proof (cases v)
  case None
  then show ?thesis by (simp add: falsy_def)
next
  case (Some j)
  then show ?thesis by (cases j) (simp_all add: falsy_def)
qed

lemma processFile_Failed_iff:
  "(\<exists>s'. processFile raw s = Failed s') \<longleftrightarrow>
     raw = None \<or> raw = Some JNull \<or>
     (\<exists>p. raw = Some p \<and>
        (falsy (getProp p ''version'') \<or>
         (falsy (getProp p ''activeTracker'') \<and> falsy (getProp p ''history''))))"
proof (cases raw)
  case None
  then show ?thesis by (simp add: processFile_unparsed)
next
  case (Some p)
  show ?thesis
  proof (cases "p = JNull")
    case True
    then show ?thesis using Some by (simp add: processFile_unparsed)
  next
    case False
    then show ?thesis using Some
      by (simp add: processFile_parsed split: option.splits)
  qed
qed

lemma processFile_Failed_state:
  assumes "processFile raw s = Failed s'"
  shows "s' = s\<lparr>importError := invalidFile\<rparr>"
proof (cases raw)
  case None
  then show ?thesis using assms by (simp add: processFile_unparsed)
next
  case (Some p)
  show ?thesis
  proof (cases "p = JNull")
    case True
    then show ?thesis using Some assms by (simp add: processFile_unparsed)
  next
    case False
    then show ?thesis using Some assms
      by (simp add: processFile_parsed split: if_splits option.splits)
  qed
qed

text \<open>
  Claim C7, as amended. The import fails exactly when the content does not parse, or parses to
  \<open>null\<close>, or the version of the parsed document is falsy, or both \<open>activeTracker\<close> and
  \<open>history\<close> are falsy, where falsy means absent, \<open>null\<close>, \<open>false\<close>, \<open>0\<close> or the empty
  string; ``absent or null'' alone is too narrow for the last condition. On every failure only the error
  message of the dialog changes: the active tracker and the history are the ones before the
  call. The documents \<open>{"version":0,"activeTracker":null,"history":[]}\<close> and
  \<open>{"version":1}\<close> are rejected.
\<close>

theorem import_failure:
  "((\<exists>s'. processFile raw s = Failed s') \<longleftrightarrow>
      raw = None \<or> raw = Some JNull \<or>
      (\<exists>p. raw = Some p \<and>
         (falsy (getProp p ''version'') \<or>
          (falsy (getProp p ''activeTracker'') \<and> falsy (getProp p ''history''))))) \<and>
   (falsy v \<longleftrightarrow>
      v = None \<or> v = Some JNull \<or> v = Some (JBool False) \<or> v = Some (JNum (Fin 0)) \<or>
      v = Some (JStr [])) \<and>
   (\<forall>s'. processFile raw s = Failed s' \<longrightarrow>
      s' = s\<lparr>importError := invalidFile\<rparr> \<and>
      activeTracker s' = activeTracker s \<and> history s' = history s) \<and>
   processFile (Some (JObj [(''version'', JNum (Fin 0)), (''activeTracker'', JNull),
                            (''history'', JArr [])])) s =
     Failed (s\<lparr>importError := invalidFile\<rparr>) \<and>
   processFile (Some (JObj [(''version'', JNum (Fin 1))])) s = Failed (s\<lparr>importError := invalidFile\<rparr>)"
proof (intro conjI allI impI)
  show "(\<exists>s'. processFile raw s = Failed s') \<longleftrightarrow>
      raw = None \<or> raw = Some JNull \<or>
      (\<exists>p. raw = Some p \<and>
         (falsy (getProp p ''version'') \<or>
          (falsy (getProp p ''activeTracker'') \<and> falsy (getProp p ''history''))))"
    by (rule processFile_Failed_iff)
  show "falsy v \<longleftrightarrow>
      v = None \<or> v = Some JNull \<or> v = Some (JBool False) \<or> v = Some (JNum (Fin 0)) \<or>
      v = Some (JStr [])"
    by (rule falsy_cases)
  show "processFile (Some (JObj [(''version'', JNum (Fin 0)), (''activeTracker'', JNull),
                            (''history'', JArr [])])) s =
     Failed (s\<lparr>importError := invalidFile\<rparr>)"
    by (simp add: processFile_parsed getProp_def falsy_def)
  show "processFile (Some (JObj [(''version'', JNum (Fin 1))])) s =
     Failed (s\<lparr>importError := invalidFile\<rparr>)"
    by (simp add: processFile_parsed getProp_def falsy_def)
next
  fix s' assume f: "processFile raw s = Failed s'"
  then show "s' = s\<lparr>importError := invalidFile\<rparr>" by (rule processFile_Failed_state)
  then show "activeTracker s' = activeTracker s" "history s' = history s" by simp_all
qed

theorem import_failure_witness:
  "processFile (Some (JObj [(''version'', JNum (Fin 0)), (''activeTracker'', JNull),
                            (''history'', JArr [])]))
     (initialState\<lparr>activeTracker := Val (exampleTracker 1 2), history := [exampleTracker 3 3]\<rparr>) =
     Failed (initialState\<lparr>activeTracker := Val (exampleTracker 1 2),
               history := [exampleTracker 3 3], importError := invalidFile\<rparr>) \<and>
   activeTracker (initialState\<lparr>activeTracker := Val (exampleTracker 1 2),
               history := [exampleTracker 3 3], importError := invalidFile\<rparr>) =
     Val (exampleTracker 1 2) \<and>
   history (initialState\<lparr>activeTracker := Val (exampleTracker 1 2),
               history := [exampleTracker 3 3], importError := invalidFile\<rparr>) =
     [exampleTracker 3 3]"
proof -
  have f: "processFile (Some (JObj [(''version'', JNum (Fin 0)), (''activeTracker'', JNull),
                            (''history'', JArr [])]))
     (initialState\<lparr>activeTracker := Val (exampleTracker 1 2), history := [exampleTracker 3 3]\<rparr>) =
     Failed (initialState\<lparr>activeTracker := Val (exampleTracker 1 2),
               history := [exampleTracker 3 3]\<rparr>\<lparr>importError := invalidFile\<rparr>)"
    using import_failure
      [of "Some (JObj [(''version'', JNum (Fin 0)), (''activeTracker'', JNull), (''history'', JArr [])])"
          "initialState\<lparr>activeTracker := Val (exampleTracker 1 2),
             history := [exampleTracker 3 3]\<rparr>"
          None]
    by (elim conjE) assumption
  have g: "\<forall>s'. processFile (Some (JObj [(''version'', JNum (Fin 0)), (''activeTracker'', JNull),
                            (''history'', JArr [])]))
     (initialState\<lparr>activeTracker := Val (exampleTracker 1 2), history := [exampleTracker 3 3]\<rparr>) =
     Failed s' \<longrightarrow>
       s' = initialState\<lparr>activeTracker := Val (exampleTracker 1 2),
               history := [exampleTracker 3 3]\<rparr>\<lparr>importError := invalidFile\<rparr> \<and>
       activeTracker s' =
         activeTracker (initialState\<lparr>activeTracker := Val (exampleTracker 1 2),
               history := [exampleTracker 3 3]\<rparr>) \<and>
       history s' =
         history (initialState\<lparr>activeTracker := Val (exampleTracker 1 2),
               history := [exampleTracker 3 3]\<rparr>)"
    using import_failure
      [of "Some (JObj [(''version'', JNum (Fin 0)), (''activeTracker'', JNull), (''history'', JArr [])])"
          "initialState\<lparr>activeTracker := Val (exampleTracker 1 2),
             history := [exampleTracker 3 3]\<rparr>"
          None]
    by (elim conjE) assumption
  from g f have "activeTracker (initialState\<lparr>activeTracker := Val (exampleTracker 1 2),
               history := [exampleTracker 3 3]\<rparr>\<lparr>importError := invalidFile\<rparr>) =
         activeTracker (initialState\<lparr>activeTracker := Val (exampleTracker 1 2),
               history := [exampleTracker 3 3]\<rparr>) \<and>
       history (initialState\<lparr>activeTracker := Val (exampleTracker 1 2),
               history := [exampleTracker 3 3]\<rparr>\<lparr>importError := invalidFile\<rparr>) =
         history (initialState\<lparr>activeTracker := Val (exampleTracker 1 2),
               history := [exampleTracker 3 3]\<rparr>)"
    by blast
  with f show ?thesis by simp
qed

text \<open>
  The claim as the specification words it fails on the document
  \<open>{"version":1,"activeTracker":0}\<close>: the version is truthy and \<open>activeTracker\<close> is
  neither absent nor null, yet the import fails, because \<open>0\<close> is falsy.
\<close>

theorem import_failure_counterexample:
  "processFile (Some (JObj [(''version'', JNum (Fin 1)), (''activeTracker'', JNum (Fin 0))])) initialState =
     Failed (initialState\<lparr>importError := invalidFile\<rparr>) \<and>
   \<not> specImportFails (Some (JObj [(''version'', JNum (Fin 1)), (''activeTracker'', JNum (Fin 0))]))"
  by (simp add: processFile_parsed getProp_def falsy_def specImportFails_def absentOrNull_def)

text \<open>
  Claim C8, as amended. For every active slot and every history in which all numbers are
  finite, importing the exported document succeeds and stores that slot and that history. A
  number that is not finite, such as the target \<open>Infinity\<close> that create gives a numeral of
  309 digits, is written as \<open>null\<close> and does not come back.
\<close>

theorem export_import_roundtrip:
  "list_all finiteTracker (trackers s) \<Longrightarrow>
   processFile (Some (handleExport s)) s' =
     Imported (s'\<lparr>importError := [], activeTracker := activeTracker s, history := history s,
                  showImport := False, tab := TrackerTab\<rparr>)"
  by (cases "activeTracker s")
     (simp_all add: processFile_def handleExport_def getProp_def falsy_def asAppData_def
        handleImport_def trackers_def)

theorem export_import_roundtrip_witness:
  "list_all finiteTracker
     (trackers (initialState\<lparr>activeTracker := Val (exampleTracker 1 2),
                  history := [exampleTracker 3 3]\<rparr>)) \<and>
   processFile
     (Some (handleExport (initialState\<lparr>activeTracker := Val (exampleTracker 1 2),
                            history := [exampleTracker 3 3]\<rparr>)))
     initialState =
     Imported (initialState\<lparr>activeTracker := Val (exampleTracker 1 2),
                 history := [exampleTracker 3 3]\<rparr>)"
proof -
  have f: "list_all finiteTracker
     (trackers (initialState\<lparr>activeTracker := Val (exampleTracker 1 2),
                  history := [exampleTracker 3 3]\<rparr>))"
    by (simp add: trackers_def)
  from export_import_roundtrip [OF f, of initialState] f show ?thesis
    by (simp add: initialState_def)
qed

text \<open>
  The claim as the specification words it fails on the state that create reaches from a
  target input of 309 nines: the tracker's target is \<open>Infinity\<close>, the exported document has
  \<open>"target": null\<close>, and the import hands on that document's tracker, whose target is
  \<open>null\<close>, instead of the tracker exported.
\<close>

theorem export_import_roundtrip_counterexample:
  "processFile
     (Some (handleExport
        (handleCreate exampleEnv (initialState\<lparr>targetStr := replicate 309 CHR ''9''\<rparr>))))
     initialState =
     Untyped
       (Some (JObj [(''id'', JStr ''k3x9q2m7rs''), (''label'', JStr ''Tracker''),
                    (''target'', JNull), (''current'', JNum (Fin 0)), (''createdAt'', JNum (Fin 1001)),
                    (''completedAt'', JNull), (''archivedAt'', JNull),
                    (''logs'', JArr [JObj [(''id'', JStr ''k3x9q2m7ru''),
                       (''timestamp'', JNum (Fin 1003)), (''action'', JStr ''created''),
                       (''detail'', JStr ''Created \"Tracker\" with target Infinity'')]])]))
       (JArr [])"
  unfolding create_overflow
  by (simp add: processFile_parsed handleExport_def initialState_def
      trackerToJson_def logEntryToJson_def numberToJson_def numberOrNull_def getProp_def
      falsy_def asAppData_def asTrackerSlot_def asTracker_def asString_def asNumber_def
      orEmpty_def)

text \<open>
  Claim C9, as amended. A document that passes the check is handed to \<open>handleImport\<close>
  without any check or change of its trackers. When it is a value of type \<open>AppData\<close>, the
  active slot becomes the document's \<open>activeTracker\<close> and the history becomes the
  document's \<open>history\<close>, except that an absent or null \<open>history\<close> is stored as the empty
  list; otherwise the values stored are the document's \<open>activeTracker\<close> and its
  \<open>history\<close>, again with the empty list for an absent or null one. Reading a document as a
  value of type \<open>AppData\<close> changes no field: for every tracker \<open>t\<close> and all trackers
  \<open>h\<close> whose numbers are finite (which are written without loss), whatever their counters, the
  document with a truthy version, \<open>t\<close> and \<open>h\<close> is stored as exactly \<open>t\<close> and \<open>h\<close>.
\<close>

theorem import_verbatim:
  "(\<not> falsy (getProp doc ''version'') \<and>
    \<not> (falsy (getProp doc ''activeTracker'') \<and> falsy (getProp doc ''history'')) \<longrightarrow>
      processFile (Some doc) s =
        (case asAppData doc of
           Some d \<Rightarrow>
             Imported (s\<lparr>importError := [], activeTracker := data_activeTracker d,
                         history := (case data_history d of Val h \<Rightarrow> h | _ \<Rightarrow> []),
                         showImport := False, tab := TrackerTab\<rparr>)
         | None \<Rightarrow>
             Untyped (getProp doc ''activeTracker'') (orEmpty (getProp doc ''history'')))) \<and>
   (finiteTracker t \<and> list_all finiteTracker h \<longrightarrow>
      asAppData (JObj [(''version'', v), (''activeTracker'', trackerToJson t),
                       (''history'', JArr (map trackerToJson h))]) =
        Some \<lparr>version = v, data_activeTracker = Val t, data_history = Val h\<rparr>) \<and>
   (finiteTracker t \<and> list_all finiteTracker h \<and> truthy v \<longrightarrow>
      processFile (Some (JObj [(''version'', v), (''activeTracker'', trackerToJson t),
                               (''history'', JArr (map trackerToJson h))])) s =
        Imported (s\<lparr>importError := [], activeTracker := Val t, history := h,
                    showImport := False, tab := TrackerTab\<rparr>))"
proof (intro conjI impI)
  assume a: "\<not> falsy (getProp doc ''version'') \<and>
    \<not> (falsy (getProp doc ''activeTracker'') \<and> falsy (getProp doc ''history''))"
  then have "doc \<noteq> JNull" using getProp_JNull by auto
  then show "processFile (Some doc) s =
        (case asAppData doc of
           Some d \<Rightarrow>
             Imported (s\<lparr>importError := [], activeTracker := data_activeTracker d,
                         history := (case data_history d of Val h \<Rightarrow> h | _ \<Rightarrow> []),
                         showImport := False, tab := TrackerTab\<rparr>)
         | None \<Rightarrow>
             Untyped (getProp doc ''activeTracker'') (orEmpty (getProp doc ''history'')))"
    using a by (simp add: processFile_parsed handleImport_def split: option.splits)
next
  assume "finiteTracker t \<and> list_all finiteTracker h"
  then show "asAppData (JObj [(''version'', v), (''activeTracker'', trackerToJson t),
                    (''history'', JArr (map trackerToJson h))]) =
     Some \<lparr>version = v, data_activeTracker = Val t, data_history = Val h\<rparr>"
    by (simp add: asAppData_def)
next
  assume f: "finiteTracker t \<and> list_all finiteTracker h \<and> truthy v"
  then have d: "asAppData (JObj [(''version'', v), (''activeTracker'', trackerToJson t),
                    (''history'', JArr (map trackerToJson h))]) =
     Some \<lparr>version = v, data_activeTracker = Val t, data_history = Val h\<rparr>"
    by (simp add: asAppData_def)
  from f show "processFile (Some (JObj [(''version'', v), (''activeTracker'', trackerToJson t),
                               (''history'', JArr (map trackerToJson h))])) s =
        Imported (s\<lparr>importError := [], activeTracker := Val t, history := h,
                    showImport := False, tab := TrackerTab\<rparr>)"
    by (simp add: processFile_parsed d getProp_def falsy_def handleImport_def)
qed

theorem import_verbatim_witness:
  "processFile (Some (JObj [(''version'', JNum (Fin 1)),
                            (''activeTracker'', trackerToJson (exampleTracker 7 3)),
                            (''history'', JArr (map trackerToJson [exampleTracker 9 2]))]))
     initialState =
     Imported (initialState\<lparr>activeTracker := Val (exampleTracker 7 3),
                 history := [exampleTracker 9 2]\<rparr>) \<and>
   target (exampleTracker 7 3) < current (exampleTracker 7 3)"
proof -
  note w = import_verbatim
    [where doc = "JObj [(''version'', JNum (Fin 1)),
                        (''activeTracker'', trackerToJson (exampleTracker 7 3)),
                        (''history'', JArr (map trackerToJson [exampleTracker 9 2]))]"
       and v = "JNum (Fin 1)" and t = "exampleTracker 7 3" and h = "[exampleTracker 9 2]"
       and s = initialState]
  have a: "asAppData (JObj [(''version'', JNum (Fin 1)),
                        (''activeTracker'', trackerToJson (exampleTracker 7 3)),
                        (''history'', JArr (map trackerToJson [exampleTracker 9 2]))]) =
      Some \<lparr>version = JNum (Fin 1), data_activeTracker = Val (exampleTracker 7 3),
            data_history = Val [exampleTracker 9 2]\<rparr>"
    using w by (elim conjE) (erule mp, simp (no_asm))
  have c: "\<not> falsy (getProp (JObj [(''version'', JNum (Fin 1)),
                        (''activeTracker'', trackerToJson (exampleTracker 7 3)),
                        (''history'', JArr (map trackerToJson [exampleTracker 9 2]))]) ''version'') \<and>
    \<not> (falsy (getProp (JObj [(''version'', JNum (Fin 1)),
                        (''activeTracker'', trackerToJson (exampleTracker 7 3)),
                        (''history'', JArr (map trackerToJson [exampleTracker 9 2]))]) ''activeTracker'') \<and>
       falsy (getProp (JObj [(''version'', JNum (Fin 1)),
                        (''activeTracker'', trackerToJson (exampleTracker 7 3)),
                        (''history'', JArr (map trackerToJson [exampleTracker 9 2]))]) ''history''))"
    by (simp add: getProp_def falsy_def)
  from w c have "processFile (Some (JObj [(''version'', JNum (Fin 1)),
                            (''activeTracker'', trackerToJson (exampleTracker 7 3)),
                            (''history'', JArr (map trackerToJson [exampleTracker 9 2]))]))
     initialState =
     (case asAppData (JObj [(''version'', JNum (Fin 1)),
                        (''activeTracker'', trackerToJson (exampleTracker 7 3)),
                        (''history'', JArr (map trackerToJson [exampleTracker 9 2]))]) of
        Some d \<Rightarrow>
          Imported (initialState\<lparr>importError := [], activeTracker := data_activeTracker d,
                      history := (case data_history d of Val h \<Rightarrow> h | _ \<Rightarrow> []),
                      showImport := False, tab := TrackerTab\<rparr>)
      | None \<Rightarrow>
          Untyped (getProp (JObj [(''version'', JNum (Fin 1)),
                        (''activeTracker'', trackerToJson (exampleTracker 7 3)),
                        (''history'', JArr (map trackerToJson [exampleTracker 9 2]))])
                     ''activeTracker'')
            (orEmpty (getProp (JObj [(''version'', JNum (Fin 1)),
                        (''activeTracker'', trackerToJson (exampleTracker 7 3)),
                        (''history'', JArr (map trackerToJson [exampleTracker 9 2]))])
                    ''history'')))"
    by blast
  then have "processFile (Some (JObj [(''version'', JNum (Fin 1)),
                            (''activeTracker'', trackerToJson (exampleTracker 7 3)),
                            (''history'', JArr (map trackerToJson [exampleTracker 9 2]))]))
     initialState =
     Imported (initialState\<lparr>importError := [], activeTracker := Val (exampleTracker 7 3),
                 history := [exampleTracker 9 2], showImport := False, tab := TrackerTab\<rparr>)"
    by (simp only: a option.case AppData.simps slot.case)
  then show ?thesis by (simp add: initialState_def exampleTracker_def)
qed

text \<open>
  The claim as the specification words it fails on a document with version \<open>1\<close>, a
  tracker as \<open>activeTracker\<close> and \<open>"history": null\<close>: the document passes the check, and
  the history stored is the empty list, not what the document has.
\<close>

theorem import_verbatim_counterexample:
  "processFile (Some (JObj [(''version'', JNum (Fin 1)),
                            (''activeTracker'', trackerToJson (exampleTracker 1 2)),
                            (''history'', JNull)])) initialState =
     Imported (initialState\<lparr>activeTracker := Val (exampleTracker 1 2)\<rparr>) \<and>
   \<not> storedAsGiven (JObj [(''version'', JNum (Fin 1)),
                            (''activeTracker'', trackerToJson (exampleTracker 1 2)),
                            (''history'', JNull)])
       (initialState\<lparr>activeTracker := Val (exampleTracker 1 2)\<rparr>)"
  by (simp add: processFile_parsed getProp_def falsy_def asAppData_def handleImport_def
      storedAsGiven_def initialState_def)

text \<open>
  Claim C10, as amended. A document with a truthy version and a truthy \<open>activeTracker\<close>,
  whose \<open>history\<close> is absent or null, is imported and the stored history is the empty list;
  when \<open>activeTracker\<close> is a tracker, the active slot holds that tracker. A non-null
  \<open>activeTracker\<close> is not enough: \<open>false\<close>, \<open>0\<close> and the empty string are falsy.
\<close>

theorem import_missing_history:
  "\<not> falsy (getProp doc ''version'') \<Longrightarrow> \<not> falsy (getProp doc ''activeTracker'') \<Longrightarrow>
   getProp doc ''history'' = None \<or> getProp doc ''history'' = Some JNull \<Longrightarrow>
   processFile (Some doc) s =
     (case asAppData doc of
        Some d \<Rightarrow>
          Imported (s\<lparr>importError := [], activeTracker := data_activeTracker d, history := [],
                      showImport := False, tab := TrackerTab\<rparr>)
      | None \<Rightarrow> Untyped (getProp doc ''activeTracker'') (JArr [])) \<and>
   (\<forall>a t. getProp doc ''activeTracker'' = Some a \<and> asTracker a = Some t \<longrightarrow>
      processFile (Some doc) s =
        Imported (s\<lparr>importError := [], activeTracker := Val t, history := [],
                    showImport := False, tab := TrackerTab\<rparr>))"
proof -
  assume v: "\<not> falsy (getProp doc ''version'')"
    and na: "\<not> falsy (getProp doc ''activeTracker'')"
    and h: "getProp doc ''history'' = None \<or> getProp doc ''history'' = Some JNull"
  from v obtain kvs where doc: "doc = JObj kvs"
    by (cases doc) (simp_all add: getProp_def falsy_def)
  have hs: "asHistorySlot (getProp doc ''history'') = Some Undefined \<or>
            asHistorySlot (getProp doc ''history'') = Some Null"
    using h by auto
  have dh: "asAppData doc = Some d \<Longrightarrow> data_history d = Undefined \<or> data_history d = Null" for d
    using hs doc by (auto simp add: asAppData_def getProp_def split: bind_splits)
  have general: "processFile (Some doc) s =
     (case asAppData doc of
        Some d \<Rightarrow>
          Imported (s\<lparr>importError := [], activeTracker := data_activeTracker d, history := [],
                      showImport := False, tab := TrackerTab\<rparr>)
      | None \<Rightarrow> Untyped (getProp doc ''activeTracker'') (JArr []))"
  proof (cases "asAppData doc")
    case None
    then show ?thesis using v na h doc by (auto simp add: processFile_parsed orEmpty_def)
  next
    case (Some d)
    then show ?thesis using v na doc dh [OF Some]
      by (auto simp add: processFile_parsed handleImport_def)
  qed
  have typed: "processFile (Some doc) s =
        Imported (s\<lparr>importError := [], activeTracker := Val t, history := [],
                    showImport := False, tab := TrackerTab\<rparr>)"
    if a: "getProp doc ''activeTracker'' = Some a" and t: "asTracker a = Some t" for a t
  proof -
    from t obtain fs where fs: "a = JObj fs"
      by (cases a) (simp_all add: asTracker_def)
    from v doc obtain ver where ver: "map_of kvs ''version'' = Some ver"
      by (cases "map_of kvs ''version''") (simp_all add: getProp_def falsy_def)
    have sl: "asTrackerSlot (Some a) = Some (Val t)"
      using t fs by (simp add: asTrackerSlot_def)
    have "\<exists>d. asAppData doc = Some d \<and> data_activeTracker d = Val t"
      using a hs sl ver doc by (auto simp add: asAppData_def getProp_def)
    then show ?thesis using general by auto
  qed
  from general typed show ?thesis by blast
qed

theorem import_missing_history_witness:
  "processFile (Some (JObj [(''version'', JNum (Fin 1)), (''activeTracker'', trackerToJson (exampleTracker 1 2))]))
     (initialState\<lparr>history := [exampleTracker 3 3]\<rparr>) =
     Imported (initialState\<lparr>activeTracker := Val (exampleTracker 1 2), history := []\<rparr>) \<and>
   processFile (Some (JObj [(''version'', JNum (Fin 1)), (''activeTracker'', trackerToJson (exampleTracker 1 2)),
              (''history'', JNull)]))
     (initialState\<lparr>history := [exampleTracker 3 3]\<rparr>) =
     Imported (initialState\<lparr>activeTracker := Val (exampleTracker 1 2), history := []\<rparr>)"
proof -
  have pa: "\<not> falsy (getProp (JObj [(''version'', JNum (Fin 1)), (''activeTracker'', trackerToJson (exampleTracker 1 2))]) ''version'')"
    "\<not> falsy (getProp (JObj [(''version'', JNum (Fin 1)), (''activeTracker'', trackerToJson (exampleTracker 1 2))]) ''activeTracker'')"
    "getProp (JObj [(''version'', JNum (Fin 1)), (''activeTracker'', trackerToJson (exampleTracker 1 2))]) ''history'' = None \<or>
     getProp (JObj [(''version'', JNum (Fin 1)), (''activeTracker'', trackerToJson (exampleTracker 1 2))]) ''history'' = Some JNull"
    by (simp_all add: getProp_def falsy_def)
  have "\<forall>a t. getProp (JObj [(''version'', JNum (Fin 1)), (''activeTracker'', trackerToJson (exampleTracker 1 2))]) ''activeTracker'' = Some a \<and> asTracker a = Some t \<longrightarrow>
      processFile (Some (JObj [(''version'', JNum (Fin 1)), (''activeTracker'', trackerToJson (exampleTracker 1 2))])) (initialState\<lparr>history := [exampleTracker 3 3]\<rparr>) =
        Imported (initialState\<lparr>history := [exampleTracker 3 3]\<rparr>\<lparr>importError := [],
                    activeTracker := Val t, history := [],
                    showImport := False, tab := TrackerTab\<rparr>)"
    using import_missing_history [OF pa, of "initialState\<lparr>history := [exampleTracker 3 3]\<rparr>"]
    by (rule conjunct2)
  then have a: "processFile (Some (JObj [(''version'', JNum (Fin 1)), (''activeTracker'', trackerToJson (exampleTracker 1 2))])) (initialState\<lparr>history := [exampleTracker 3 3]\<rparr>) =
     Imported (initialState\<lparr>activeTracker := Val (exampleTracker 1 2), history := []\<rparr>)"
    by (simp add: getProp_def initialState_def)
  have pb: "\<not> falsy (getProp (JObj [(''version'', JNum (Fin 1)), (''activeTracker'', trackerToJson (exampleTracker 1 2)),
              (''history'', JNull)]) ''version'')"
    "\<not> falsy (getProp (JObj [(''version'', JNum (Fin 1)), (''activeTracker'', trackerToJson (exampleTracker 1 2)),
              (''history'', JNull)]) ''activeTracker'')"
    "getProp (JObj [(''version'', JNum (Fin 1)), (''activeTracker'', trackerToJson (exampleTracker 1 2)),
              (''history'', JNull)]) ''history'' = None \<or>
     getProp (JObj [(''version'', JNum (Fin 1)), (''activeTracker'', trackerToJson (exampleTracker 1 2)),
              (''history'', JNull)]) ''history'' = Some JNull"
    by (simp_all add: getProp_def falsy_def)
  have "\<forall>a t. getProp (JObj [(''version'', JNum (Fin 1)), (''activeTracker'', trackerToJson (exampleTracker 1 2)),
              (''history'', JNull)]) ''activeTracker'' = Some a \<and> asTracker a = Some t \<longrightarrow>
      processFile (Some (JObj [(''version'', JNum (Fin 1)), (''activeTracker'', trackerToJson (exampleTracker 1 2)),
              (''history'', JNull)])) (initialState\<lparr>history := [exampleTracker 3 3]\<rparr>) =
        Imported (initialState\<lparr>history := [exampleTracker 3 3]\<rparr>\<lparr>importError := [],
                    activeTracker := Val t, history := [],
                    showImport := False, tab := TrackerTab\<rparr>)"
    using import_missing_history [OF pb, of "initialState\<lparr>history := [exampleTracker 3 3]\<rparr>"]
    by (rule conjunct2)
  then have b: "processFile (Some (JObj [(''version'', JNum (Fin 1)), (''activeTracker'', trackerToJson (exampleTracker 1 2)),
              (''history'', JNull)])) (initialState\<lparr>history := [exampleTracker 3 3]\<rparr>) =
     Imported (initialState\<lparr>activeTracker := Val (exampleTracker 1 2), history := []\<rparr>)"
    by (simp add: getProp_def initialState_def)
  from a b show ?thesis by (intro conjI)
qed

text \<open>
  The claim as the specification words it fails on the document
  \<open>{"version":1,"activeTracker":false}\<close>: the version is truthy, \<open>activeTracker\<close> is
  present and not null, \<open>history\<close> is absent, and the import fails.
\<close>

theorem import_missing_history_counterexample:
  "\<not> falsy (getProp (JObj [(''version'', JNum (Fin 1)), (''activeTracker'', JBool False)]) ''version'') \<and>
   \<not> absentOrNull (getProp (JObj [(''version'', JNum (Fin 1)), (''activeTracker'', JBool False)])
                     ''activeTracker'') \<and>
   absentOrNull (getProp (JObj [(''version'', JNum (Fin 1)), (''activeTracker'', JBool False)])
                   ''history'') \<and>
   processFile (Some (JObj [(''version'', JNum (Fin 1)), (''activeTracker'', JBool False)]))
     initialState = Failed (initialState\<lparr>importError := invalidFile\<rparr>)"
  by (simp add: processFile_parsed getProp_def falsy_def absentOrNull_def)


end
